theory Spec2Isabelle
  imports Complex_Main "HOL-Library.Sublist" "HOL-Library.AList" "HOL-Library.Multiset"
begin

section \<open>Python strings\<close>

text \<open>
  A Python \<open>str\<close> is modelled as a \<open>string\<close>, one \<open>char\<close> per character, the
  \<open>char\<close> being the character's code point; a \<open>bytes\<close> object is a \<open>string\<close> too, one
  \<open>char\<close> per byte. The model therefore covers text whose code points lie below 256, and
  the character classes below are Python's on that range. \<open>bytes.decode('utf-8',
  errors='ignore')\<close> is the identity on ASCII bytes, which is how \<open>decode_utf8_ignore\<close>
  models it: a request is covered exactly when its bytes are ASCII.
\<close>

definition CR :: char where "CR = CHR 0x0D"
definition LF :: char where "LF = CHR 0x0A"
definition CRLF :: string where "CRLF = [CR, LF]"

definition decode_utf8_ignore :: "string \<Rightarrow> string" where
  "decode_utf8_ignore bs = bs"

text \<open>\<open>str.isspace\<close> on one character, which is also the class \<open>\s\<close> of \<open>re\<close>.\<close>

definition isspace :: "char \<Rightarrow> bool" where
  "isspace c = ((of_char c :: nat) \<in> {9, 10, 11, 12, 13, 28, 29, 30, 31, 32, 133, 160})"

definition isupper :: "char \<Rightarrow> bool" where
  "isupper c = (let n = (of_char c :: nat) in
     (65 \<le> n \<and> n \<le> 90) \<or> (192 \<le> n \<and> n \<le> 222 \<and> n \<noteq> 215))"

definition ascii_lower :: "char \<Rightarrow> bool" where
  "ascii_lower c = (let n = (of_char c :: nat) in 97 \<le> n \<and> n \<le> 122)"

definition ascii_upper :: "char \<Rightarrow> bool" where
  "ascii_upper c = (let n = (of_char c :: nat) in 65 \<le> n \<and> n \<le> 90)"

definition ascii_letter :: "char \<Rightarrow> bool" where
  "ascii_letter c = (ascii_upper c \<or> ascii_lower c)"

definition ascii_digit :: "char \<Rightarrow> bool" where
  "ascii_digit c = (let n = (of_char c :: nat) in 48 \<le> n \<and> n \<le> 57)"

text \<open>
  \<open>str.lower\<close> on one character: an upper-case letter (A-Z, and U+00C0..U+00DE without
  the multiplication sign) moves up by 32, which sets the bit of weight 32.
\<close>

definition lower_char :: "char \<Rightarrow> char" where
  "lower_char c =
     (if isupper c
      then (case c of Char b0 b1 b2 b3 b4 b5 b6 b7 \<Rightarrow> Char b0 b1 b2 b3 b4 True b6 b7)
      else c)"

text \<open>
  \<open>str.upper\<close> on one character, for ASCII letters, the only characters the request
  parser upper-cases (its method group holds nothing else).
\<close>

definition upper_char :: "char \<Rightarrow> char" where
  "upper_char c =
     (if ascii_lower c
      then (case c of Char b0 b1 b2 b3 b4 b5 b6 b7 \<Rightarrow> Char b0 b1 b2 b3 b4 False b6 b7)
      else c)"

definition py_lower :: "string \<Rightarrow> string" where
  "py_lower s = map lower_char s"

definition py_upper :: "string \<Rightarrow> string" where
  "py_upper s = map upper_char s"

definition py_lstrip :: "string \<Rightarrow> string" where
  "py_lstrip s = dropWhile isspace s"

definition py_rstrip :: "string \<Rightarrow> string" where
  "py_rstrip s = rev (dropWhile isspace (rev s))"

definition py_strip :: "string \<Rightarrow> string" where
  "py_strip s = py_rstrip (py_lstrip s)"

definition startswith :: "string \<Rightarrow> string \<Rightarrow> bool" where
  "startswith s p = (take (length p) s = p)"

definition endswith :: "string \<Rightarrow> string \<Rightarrow> bool" where
  "endswith s p = (length p \<le> length s \<and> drop (length s - length p) s = p)"

text \<open>\<open>s.find(sub)\<close>: the index of the first occurrence, \<open>None\<close> for Python's -1.\<close>

fun py_find :: "string \<Rightarrow> string \<Rightarrow> nat option" where
  "py_find [] sub = (if sub = [] then Some 0 else None)"
| "py_find (c # cs) sub =
     (if startswith (c # cs) sub then Some 0 else map_option Suc (py_find cs sub))"

definition contains :: "string \<Rightarrow> string \<Rightarrow> bool" where
  "contains s sub = (py_find s sub \<noteq> None)"

text \<open>\<open>s.rfind(sub)\<close>: the index of the last occurrence.\<close>

fun py_rfind :: "string \<Rightarrow> string \<Rightarrow> nat option" where
  "py_rfind [] sub = (if sub = [] then Some 0 else None)"
| "py_rfind (c # cs) sub =
     (case py_rfind cs sub of
        Some i \<Rightarrow> Some (Suc i)
      | None \<Rightarrow> if startswith (c # cs) sub then Some 0 else None)"

text \<open>\<open>s.partition(sep)\<close> and \<open>s.rpartition(sep)\<close>, for a non-empty separator.\<close>

definition py_partition :: "string \<Rightarrow> string \<Rightarrow> string \<times> string \<times> string" where
  "py_partition s sep =
     (case py_find s sep of
        None \<Rightarrow> (s, [], [])
      | Some i \<Rightarrow> (take i s, sep, drop (i + length sep) s))"

definition py_rpartition :: "string \<Rightarrow> string \<Rightarrow> string \<times> string \<times> string" where
  "py_rpartition s sep =
     (case py_rfind s sep of
        None \<Rightarrow> ([], [], s)
      | Some i \<Rightarrow> (take i s, sep, drop (i + length sep) s))"

text \<open>
  \<open>s.split(sep)\<close> for a non-empty separator: the pieces between the occurrences of
  \<open>sep\<close>, found from the left without overlap. \<open>split_from sep acc s\<close> has read the
  characters of \<open>acc\<close> (reversed) into the current piece.
\<close>

function split_from :: "string \<Rightarrow> string \<Rightarrow> string \<Rightarrow> string list" where
  "split_from sep acc [] = [rev acc]"
| "split_from sep acc (c # cs) =
     (if sep \<noteq> [] \<and> startswith (c # cs) sep
      then rev acc # split_from sep [] (drop (length sep) (c # cs))
      else split_from sep (c # acc) cs)"
  by pat_completeness auto
termination
  by (relation "measure (\<lambda>(sep, acc, s). length s)") auto

definition py_split :: "string \<Rightarrow> string \<Rightarrow> string list" where
  "py_split s sep = split_from sep [] s"

text \<open>\<open>s.split(sep, 1)\<close> and \<open>s.rsplit(sep, 1)\<close>: at most one cut.\<close>

definition py_split1 :: "string \<Rightarrow> string \<Rightarrow> string list" where
  "py_split1 s sep =
     (case py_find s sep of
        None \<Rightarrow> [s]
      | Some i \<Rightarrow> [take i s, drop (i + length sep) s])"

definition py_rsplit1 :: "string \<Rightarrow> string \<Rightarrow> string list" where
  "py_rsplit1 s sep =
     (case py_rfind s sep of
        None \<Rightarrow> [s]
      | Some i \<Rightarrow> [take i s, drop (i + length sep) s])"

fun py_join :: "string \<Rightarrow> string list \<Rightarrow> string" where
  "py_join sep [] = []"
| "py_join sep [x] = x"
| "py_join sep (x # y # ys) = x @ sep @ py_join sep (y # ys)"

text \<open>\<open>s.replace(c, "")\<close> for a one-character \<open>c\<close>.\<close>

definition remove_char :: "char \<Rightarrow> string \<Rightarrow> string" where
  "remove_char c s = filter (\<lambda>d. d \<noteq> c) s"

subsection \<open>Numbers and their digits\<close>

definition digit_chars :: string where
  "digit_chars = ''0123456789abcdef''"

text \<open>The value of a hexadecimal digit; decimal digits are the first ten.\<close>

definition digit_value :: "char \<Rightarrow> nat" where
  "digit_value c =
     (let n = (of_char c :: nat) in
      if 48 \<le> n \<and> n \<le> 57 then n - 48
      else if 97 \<le> n \<and> n \<le> 102 then n - 87
      else n - 55)"

definition hex_digit :: "char \<Rightarrow> bool" where
  "hex_digit c =
     (let n = (of_char c :: nat) in
      (48 \<le> n \<and> n \<le> 57) \<or> (97 \<le> n \<and> n \<le> 102) \<or> (65 \<le> n \<and> n \<le> 70))"

definition number_of_digits :: "nat \<Rightarrow> string \<Rightarrow> nat" where
  "number_of_digits base s = foldl (\<lambda>a c. base * a + digit_value c) 0 s"

text \<open>\<open>str(n)\<close> and \<open>'%x' % n\<close> for a natural number.\<close>

function py_str_nat :: "nat \<Rightarrow> string" where
  "py_str_nat n =
     (if n < 10 then [digit_chars ! n]
      else py_str_nat (n div 10) @ [digit_chars ! (n mod 10)])"
  by pat_completeness auto
termination
  by (relation "measure (\<lambda>n. n)") auto

function py_hex :: "nat \<Rightarrow> string" where
  "py_hex n =
     (if n < 16 then [digit_chars ! n]
      else py_hex (n div 16) @ [digit_chars ! (n mod 16)])"
  by pat_completeness auto
termination
  by (relation "measure (\<lambda>n. n)") auto

section \<open>The library's \<open>ipaddress.ip_address\<close>\<close>

text \<open>
  The rule loader and the filter call \<open>ipaddress.ip_address\<close> and \<open>str\<close> of its result.
  Both are modelled after CPython 3.11: \<open>IPv4Address\<close> is tried first, then
  \<open>IPv6Address\<close>. An address is its integer, as in the library, and an IPv6 address
  carries its scope id.
\<close>

datatype ip_addr = IPv4Address nat | IPv6Address nat "string option"

definition parse_octet :: "string \<Rightarrow> nat option" where
  "parse_octet octet_str =
     (if octet_str = [] then None
      else if \<not> list_all ascii_digit octet_str then None
      else if length octet_str > 3 then None
      else if octet_str \<noteq> ''0'' \<and> hd octet_str = CHR ''0'' then None
      else if number_of_digits 10 octet_str > 255 then None
      else Some (number_of_digits 10 octet_str))"

fun all_some :: "'a option list \<Rightarrow> 'a list option" where
  "all_some [] = Some []"
| "all_some (None # xs) = None"
| "all_some (Some x # xs) = map_option (\<lambda>ys. x # ys) (all_some xs)"

definition int_from_parts :: "nat \<Rightarrow> nat list \<Rightarrow> nat" where
  "int_from_parts width ps = foldl (\<lambda>a b. a * width + b) 0 ps"

definition ipv4_int_from_string :: "string \<Rightarrow> nat option" where
  "ipv4_int_from_string ip_str =
     (if ip_str = [] then None
      else let octets = py_split ip_str ''.'' in
        if length octets \<noteq> 4 then None
        else map_option (int_from_parts 256) (all_some (map parse_octet octets)))"

definition ipv4_address :: "string \<Rightarrow> nat option" where
  "ipv4_address addr_str =
     (if CHR ''/'' \<in> set addr_str then None else ipv4_int_from_string addr_str)"

definition ipv4_string_from_int :: "nat \<Rightarrow> string" where
  "ipv4_string_from_int ip_int =
     py_join ''.'' (map (\<lambda>k. py_str_nat ((ip_int div 256 ^ k) mod 256)) [3, 2, 1, 0])"

definition parse_hextet :: "string \<Rightarrow> nat option" where
  "parse_hextet hextet_str =
     (if \<not> list_all hex_digit hextet_str then None
      else if length hextet_str > 4 then None
      else if hextet_str = [] then None
      else Some (number_of_digits 16 hextet_str))"

text \<open>
  The loop that looks for the one empty part strictly between the end points; a second
  one is an error (the outer \<open>None\<close>).
\<close>

fun find_skip_index :: "string list \<Rightarrow> nat list \<Rightarrow> nat option \<Rightarrow> nat option option" where
  "find_skip_index parts [] skip_index = Some skip_index"
| "find_skip_index parts (i # is) skip_index =
     (if parts ! i = []
      then (if skip_index \<noteq> None then None else find_skip_index parts is (Some i))
      else find_skip_index parts is skip_index)"

definition ipv6_int_from_string :: "string \<Rightarrow> nat option" where
  "ipv6_int_from_string ip_str =
     (if ip_str = [] then None
      else let parts0 = py_split ip_str '':'' in
        if length parts0 < 3 then None
        else
          (case (if CHR ''.'' \<in> set (last parts0)
                 then (case ipv4_address (last parts0) of
                         None \<Rightarrow> None
                       | Some ipv4_int \<Rightarrow>
                           Some (butlast parts0 @
                                 [py_hex ((ipv4_int div 65536) mod 65536),
                                  py_hex (ipv4_int mod 65536)]))
                 else Some parts0) of
             None \<Rightarrow> None
           | Some parts \<Rightarrow>
               if length parts > 9 then None
               else
                 (case find_skip_index parts [1 ..< length parts - 1] None of
                    None \<Rightarrow> None
                  | Some (Some skip_index) \<Rightarrow>
                      let parts_hi0 = skip_index;
                          parts_lo0 = length parts - skip_index - 1;
                          parts_hi = (if hd parts = [] then parts_hi0 - 1 else parts_hi0);
                          parts_lo = (if last parts = [] then parts_lo0 - 1 else parts_lo0)
                      in
                        if hd parts = [] \<and> parts_hi \<noteq> 0 then None
                        else if last parts = [] \<and> parts_lo \<noteq> 0 then None
                        else if 8 < parts_hi + parts_lo + 1 then None
                        else
                          (case (all_some (map parse_hextet (take parts_hi parts)),
                                 all_some (map parse_hextet
                                   (drop (length parts - parts_lo) parts))) of
                             (Some hi, Some lo) \<Rightarrow>
                               Some (int_from_parts 65536
                                 (hi @ replicate (8 - (parts_hi + parts_lo)) 0 @ lo))
                           | _ \<Rightarrow> None)
                  | Some None \<Rightarrow>
                      if length parts \<noteq> 8 then None
                      else if hd parts = [] then None
                      else if last parts = [] then None
                      else map_option (int_from_parts 65536)
                             (all_some (map parse_hextet parts)))))"

text \<open>\<open>_split_scope_id\<close>: the address and the scope id after the first percent sign.\<close>

definition split_scope_id :: "string \<Rightarrow> (string \<times> string option) option" where
  "split_scope_id ip_str =
     (case py_partition ip_str ''%'' of
        (addr, sep, scope_id) \<Rightarrow>
          if sep = [] then Some (addr, None)
          else if scope_id = [] \<or> CHR ''%'' \<in> set scope_id then None
          else Some (addr, Some scope_id))"

definition ipv6_address :: "string \<Rightarrow> (nat \<times> string option) option" where
  "ipv6_address addr_str =
     (if CHR ''/'' \<in> set addr_str then None
      else (case split_scope_id addr_str of
              None \<Rightarrow> None
            | Some (addr, scope_id) \<Rightarrow>
                map_option (\<lambda>ip_int. (ip_int, scope_id)) (ipv6_int_from_string addr)))"

text \<open>
  \<open>_compress_hextets\<close>: the loop keeps the start and length of the run of zero hextets
  being read and of the longest run so far (-1 for no start, as in the library).
\<close>

fun compress_scan :: "string list \<Rightarrow> int \<Rightarrow> int \<times> int \<times> int \<times> int \<Rightarrow> int \<times> int" where
  "compress_scan [] index (best_start, best_len, cur_start, cur_len) = (best_start, best_len)"
| "compress_scan (hextet # rest) index (best_start, best_len, cur_start, cur_len) =
     (if hextet = ''0''
      then (let cur_len' = cur_len + 1;
                cur_start' = (if cur_start = - 1 then index else cur_start)
            in if cur_len' > best_len
               then compress_scan rest (index + 1) (cur_start', cur_len', cur_start', cur_len')
               else compress_scan rest (index + 1) (best_start, best_len, cur_start', cur_len'))
      else compress_scan rest (index + 1) (best_start, best_len, - 1, 0))"

definition compress_hextets :: "string list \<Rightarrow> string list" where
  "compress_hextets hextets =
     (case compress_scan hextets 0 (- 1, 0, - 1, 0) of
        (best_start, best_len) \<Rightarrow>
          if best_len > 1
          then (let best_end = best_start + best_len;
                    h1 = (if best_end = int (length hextets) then hextets @ [[]] else hextets);
                    h2 = take (nat best_start) h1 @ [[]] @ drop (nat best_end) h1
                in if best_start = 0 then [] # h2 else h2)
          else hextets)"

definition ipv6_string_from_int :: "nat \<Rightarrow> string" where
  "ipv6_string_from_int ip_int =
     py_join '':''
       (compress_hextets
          (map (\<lambda>k. py_hex ((ip_int div 65536 ^ k) mod 65536)) [7, 6, 5, 4, 3, 2, 1, 0]))"

definition ip_address :: "string \<Rightarrow> ip_addr option" where
  "ip_address address =
     (case ipv4_address address of
        Some ip_int \<Rightarrow> Some (IPv4Address ip_int)
      | None \<Rightarrow>
          (case ipv6_address address of
             Some (ip_int, scope_id) \<Rightarrow> Some (IPv6Address ip_int scope_id)
           | None \<Rightarrow> None))"

fun ip_str :: "ip_addr \<Rightarrow> string" where
  "ip_str (IPv4Address ip_int) = ipv4_string_from_int ip_int"
| "ip_str (IPv6Address ip_int None) = ipv6_string_from_int ip_int"
| "ip_str (IPv6Address ip_int (Some scope_id)) =
     (if scope_id = [] then ipv6_string_from_int ip_int
      else ipv6_string_from_int ip_int @ ''%'' @ scope_id)"

section \<open>The filter manager (\<open>filter_manager.py\<close>)\<close>

text \<open>
  The object's fields. The two sets are Python sets of strings, the suffixes a list in
  file order; the modification time is a float of seconds, modelled as a real number.
\<close>

record filter_manager =
  blocked_domains :: "string set"
  blocked_ips :: "string set"
  blocked_suffixes :: "string list"
  last_modified :: real

text \<open>
  What the file system answers during one operation on the rules file:
  \<open>os.path.exists\<close>, \<open>os.path.getmtime\<close> (\<open>None\<close> when it raises \<open>OSError\<close>), and what
  opening and reading the file gives: the open fails, or every line is read, or some lines
  are read and the next read raises.
\<close>

datatype file_read = OpenError | ReadOk "string list" | ReadFails "string list"

record file_system =
  fs_exists :: bool
  fs_getmtime :: "real option"
  fs_read :: file_read

text \<open>The body of the loop over the lines of the file.\<close>

definition load_line :: "filter_manager \<Rightarrow> string \<Rightarrow> filter_manager" where
  "load_line fm raw =
     (let line = py_strip raw in
      if line = [] \<or> startswith line ''#'' then fm
      else (case ip_address line of
              Some ip \<Rightarrow> fm\<lparr>blocked_ips := insert line (blocked_ips fm)\<rparr>
            | None \<Rightarrow>
                (let domain = py_lower line in
                 if startswith domain ''*.''
                 then fm\<lparr>blocked_suffixes := blocked_suffixes fm @ [drop 2 domain]\<rparr>
                 else fm\<lparr>blocked_domains := insert domain (blocked_domains fm)\<rparr>)))"

definition load_lines :: "filter_manager \<Rightarrow> string list \<Rightarrow> filter_manager" where
  "load_lines fm ls = foldl load_line fm ls"

definition clear_filters :: "filter_manager \<Rightarrow> filter_manager" where
  "clear_filters fm = fm\<lparr>blocked_domains := {}, blocked_ips := {}, blocked_suffixes := []\<rparr>"

text \<open>
  \<open>load_filters\<close>: the three collections are cleared inside the \<open>try\<close>, before the file
  is opened; any exception afterwards is caught and printed, and leaves the object as it
  is at that moment. The modification time is stored after the last line only.
\<close>

definition load_filters :: "filter_manager \<Rightarrow> file_system \<Rightarrow> filter_manager" where
  "load_filters fm fs =
     (let cleared = clear_filters fm in
      case fs_read fs of
        OpenError \<Rightarrow> cleared
      | ReadFails ls \<Rightarrow> load_lines cleared ls
      | ReadOk ls \<Rightarrow>
          (let loaded = load_lines cleared ls in
           if fs_exists fs
           then (case fs_getmtime fs of
                   None \<Rightarrow> loaded
                 | Some t \<Rightarrow> loaded\<lparr>last_modified := t\<rparr>)
           else loaded))"

definition reload_if_changed :: "filter_manager \<Rightarrow> file_system \<Rightarrow> bool \<times> filter_manager" where
  "reload_if_changed fm fs =
     (if \<not> fs_exists fs then (False, fm)
      else (case fs_getmtime fs of
              None \<Rightarrow> (False, fm)
            | Some current_modified \<Rightarrow>
                if current_modified > last_modified fm + 1 / 10
                then (True, load_filters fm fs)
                else (False, fm)))"

definition force_reload :: "filter_manager \<Rightarrow> file_system \<Rightarrow> bool \<times> filter_manager" where
  "force_reload fm fs =
     (if fs_exists fs then (True, load_filters fm fs) else (False, fm))"

text \<open>
  The constructor: empty collections, then a first load when the file exists (otherwise
  a default file of comments is written, which the model leaves out).
\<close>

definition new_filter_manager :: filter_manager where
  "new_filter_manager =
     \<lparr>blocked_domains = {}, blocked_ips = {}, blocked_suffixes = [], last_modified = 0\<rparr>"

definition init_filter_manager :: "file_system \<Rightarrow> filter_manager" where
  "init_filter_manager fs =
     (if fs_exists fs then load_filters new_filter_manager fs else new_filter_manager)"

text \<open>The loop over the suffixes in \<open>is_blocked\<close>.\<close>

fun suffix_blocked :: "string list \<Rightarrow> string \<Rightarrow> bool" where
  "suffix_blocked [] host = False"
| "suffix_blocked (sfx # rest) host =
     (if endswith host (''.'' @ sfx) \<or> host = sfx then True
      else suffix_blocked rest host)"

definition is_blocked :: "filter_manager \<Rightarrow> string \<Rightarrow> bool" where
  "is_blocked fm host0 =
     (if host0 = [] then False
      else (let host = py_strip (py_lower host0) in
        if host \<in> blocked_ips fm then True
        else if (case ip_address host of
                   Some host_ip \<Rightarrow> ip_str host_ip \<in> blocked_ips fm
                 | None \<Rightarrow> False) then True
        else if host \<in> blocked_domains fm then True
        else suffix_blocked (blocked_suffixes fm) host))"

subsection \<open>The specification's reading of the filter\<close>

text \<open>
  The block decision in the specification's words: after lower-casing and trimming, the
  host is an IP address whose canonical form is an IP rule, or it is an exact-domain
  rule, or it matches a suffix rule.
\<close>

definition spec_is_blocked :: "filter_manager \<Rightarrow> string \<Rightarrow> bool" where
  "spec_is_blocked fm host0 =
     (let host = py_strip (py_lower host0) in
      (case ip_address host of
         Some host_ip \<Rightarrow> ip_str host_ip \<in> blocked_ips fm
       | None \<Rightarrow> False)
      \<or> host \<in> blocked_domains fm
      \<or> list_ex (\<lambda>s. host = s \<or> endswith host (''.'' @ s)) (blocked_suffixes fm))"

text \<open>A string is a canonical IP address when parsing it and printing the result gives it back.\<close>

definition canonical_ip :: "string \<Rightarrow> bool" where
  "canonical_ip x = (case ip_address x of Some ip \<Rightarrow> ip_str ip = x | None \<Rightarrow> False)"

definition valid_ip :: "string \<Rightarrow> bool" where
  "valid_ip x = (ip_address x \<noteq> None)"

text \<open>A comment line starts with \<open>#\<close>; a blank line holds white space only.\<close>

definition comment_line :: "string \<Rightarrow> bool" where
  "comment_line l = startswith l ''#''"

definition blank_line :: "string \<Rightarrow> bool" where
  "blank_line l = list_all isspace l"

text \<open>
  The edits of a rules file that the specification calls harmless: reordering the lines,
  adding a comment line, adding a blank line, and any sequence of these.
\<close>

inductive rules_file_edit :: "string list \<Rightarrow> string list \<Rightarrow> bool" where
  reorder: "mset ls' = mset ls \<Longrightarrow> rules_file_edit ls ls'"
| add_comment: "comment_line c \<Longrightarrow> rules_file_edit (xs @ ys) (xs @ c # ys)"
| add_blank: "blank_line c \<Longrightarrow> rules_file_edit (xs @ ys) (xs @ c # ys)"
| sequence: "rules_file_edit ls ls' \<Longrightarrow> rules_file_edit ls' ls'' \<Longrightarrow> rules_file_edit ls ls''"

text \<open>The lines a failed load has read before the failure; \<open>None\<close> for a load that succeeds.\<close>

fun lines_before_failure :: "file_read \<Rightarrow> string list option" where
  "lines_before_failure OpenError = Some []"
| "lines_before_failure (ReadFails ls) = Some ls"
| "lines_before_failure (ReadOk ls) = None"

section \<open>The request parser (\<open>http_parser.py\<close>)\<close>

subsection \<open>The request-line pattern\<close>

text \<open>
  The pattern is \<^verbatim>\<open>^([A-Z]+)\s+(.+?)\s+(HTTP/\d\.\d)$\<close>, compiled with \<open>re.IGNORECASE\<close> and
  used with \<open>match\<close>. The functions below follow the matcher's search: on the code
  points covered here, \<open>[A-Z]\<close> under \<open>IGNORECASE\<close> is an ASCII letter of either case,
  the literal \<open>HTTP\<close> matches in either case, \<open>\d\<close> is an ASCII digit, the dot is any
  character but the line feed, and \<open>$\<close> is the end of the string or the position before
  a final line feed.
\<close>

definition version_text :: "string \<Rightarrow> bool" where
  "version_text v =
     (length v = 8 \<and> py_lower (take 4 v) = ''http'' \<and> v ! 4 = CHR ''/''
      \<and> ascii_digit (v ! 5) \<and> v ! 6 = CHR ''.'' \<and> ascii_digit (v ! 7))"

text \<open>
  \<^verbatim>\<open>\s+(HTTP/\d\.\d)$\<close> at the start of \<open>r\<close>: the white space is the whole run (a shorter one
  is followed by white space, not by the letter), then the version, then the end.
\<close>

definition match_tail :: "string \<Rightarrow> string option" where
  "match_tail r =
     (let rest = dropWhile isspace r in
      if takeWhile isspace r = [] then None
      else if version_text (take 8 rest) \<and> (drop 8 rest = [] \<or> drop 8 rest = [LF])
      then Some (take 8 rest)
      else None)"

text \<open>
  The lazy group \<^verbatim>\<open>(.+?)\<close>: one character, then the shortest extension after which the
  tail matches. \<open>acc\<close> holds the characters taken so far, reversed.
\<close>

fun match_target :: "string \<Rightarrow> string \<Rightarrow> (string \<times> string) option" where
  "match_target acc [] = None"
| "match_target acc (c # cs) =
     (if c = LF then None
      else (case match_tail cs of
              Some v \<Rightarrow> Some (rev (c # acc), v)
            | None \<Rightarrow> match_target (c # acc) cs))"

text \<open>
  The greedy \<^verbatim>\<open>\s+\<close> after the method: the longest run of white space first, then one
  character less at a time, down to one.
\<close>

fun match_space :: "nat \<Rightarrow> string \<Rightarrow> (string \<times> string) option" where
  "match_space 0 r = None"
| "match_space (Suc k) r =
     (case match_target [] (drop (Suc k) r) of
        Some tv \<Rightarrow> Some tv
      | None \<Rightarrow> match_space k r)"

text \<open>
  The whole pattern: the method is the run of letters at the start (a shorter one is
  followed by a letter, not by white space). The result is the three groups.
\<close>

definition match_request_line :: "string \<Rightarrow> (string \<times> string \<times> string) option" where
  "match_request_line line =
     (let m = takeWhile ascii_letter line;
          r = dropWhile ascii_letter line
      in if m = [] then None
         else (case match_space (length (takeWhile isspace r)) r of
                 None \<Rightarrow> None
               | Some (target, version) \<Rightarrow> Some (m, target, version)))"

subsection \<open>Python's \<open>int\<close> of a string\<close>

text \<open>
  \<open>int(s)\<close> in base 10, \<open>None\<close> for \<open>ValueError\<close>: white space, an optional sign, digits
  with single underscores between them, white space. The white space of \<open>int\<close> is the C
  locale's, and the non-ASCII white space of \<open>str\<close>; the separators U+001C..U+001F are
  not part of it. More than 4300 digits are refused (the interpreter's default limit).
\<close>

definition int_space :: "char \<Rightarrow> bool" where
  "int_space c = ((of_char c :: nat) \<in> {9, 10, 11, 12, 13, 32, 133, 160})"

fun double_underscore :: "string \<Rightarrow> bool" where
  "double_underscore (c # d # cs) =
     ((c = CHR ''_'' \<and> d = CHR ''_'') \<or> double_underscore (d # cs))"
| "double_underscore cs = False"

definition py_int :: "string \<Rightarrow> int option" where
  "py_int s =
     (let t = dropWhile int_space s;
          negative = (t \<noteq> [] \<and> hd t = CHR ''-'');
          u = (if t \<noteq> [] \<and> (hd t = CHR ''+'' \<or> hd t = CHR ''-'') then tl t else t);
          body = takeWhile (\<lambda>c. ascii_digit c \<or> c = CHR ''_'') u;
          rest = dropWhile (\<lambda>c. ascii_digit c \<or> c = CHR ''_'') u;
          ds = filter ascii_digit body
      in if body = [] \<or> hd body = CHR ''_'' \<or> last body = CHR ''_'' \<or> double_underscore body
            \<or> \<not> list_all int_space rest \<or> length ds > 4300
         then None
         else Some (if negative then - int (number_of_digits 10 ds)
                    else int (number_of_digits 10 ds)))"

subsection \<open>The library's \<open>urllib.parse.urlparse\<close>\<close>

text \<open>
  \<open>urlparse\<close> and the \<open>hostname\<close> and \<open>port\<close> properties of its result, after CPython
  3.11; \<open>None\<close> stands for \<open>ValueError\<close>. \<open>_checknetloc\<close> never raises on the code points
  covered here (no character below 256 normalises to one of \<open>/?#@:\<close>), so it is left
  out.
\<close>

record parse_result =
  pr_scheme :: string
  pr_netloc :: string
  pr_path :: string
  pr_params :: string
  pr_query :: string
  pr_fragment :: string

definition c0_control_or_space :: "char \<Rightarrow> bool" where
  "c0_control_or_space c = ((of_char c :: nat) \<le> 32)"

definition scheme_char :: "char \<Rightarrow> bool" where
  "scheme_char c =
     (ascii_letter c \<or> ascii_digit c \<or> c = CHR ''+'' \<or> c = CHR ''-'' \<or> c = CHR ''.'')"

definition uses_params :: "string list" where
  "uses_params = ['''', ''ftp'', ''hdl'', ''prospero'', ''http'', ''imap'', ''https'', ''shttp'',
     ''rtsp'', ''rtsps'', ''rtspu'', ''sip'', ''sips'', ''mms'', ''sftp'', ''tel'']"

text \<open>\<open>s.find(sub, start)\<close>.\<close>

definition py_find_from :: "string \<Rightarrow> string \<Rightarrow> nat \<Rightarrow> nat option" where
  "py_find_from s sub start = map_option (\<lambda>j. start + j) (py_find (drop start s) sub)"

definition splitnetloc :: "string \<Rightarrow> nat \<Rightarrow> string \<times> string" where
  "splitnetloc url start =
     (let delim = foldl (\<lambda>delim c. case py_find_from url [c] start of
                                    Some wdelim \<Rightarrow> min delim wdelim
                                  | None \<Rightarrow> delim)
                    (length url) ''/?#''
      in (drop start (take delim url), drop delim url))"

text \<open>
  \<open>_check_bracketed_host\<close>: an IPvFuture literal must match \<^verbatim>\<open>\Av[a-fA-F0-9]+\..+\Z\<close>;
  anything else must parse as an IP address that is not an IPv4 address.
\<close>

definition ipvfuture :: "string \<Rightarrow> bool" where
  "ipvfuture hostname =
     (let digits = takeWhile hex_digit (drop 1 hostname);
          rest = dropWhile hex_digit (drop 1 hostname)
      in take 1 hostname = ''v'' \<and> digits \<noteq> [] \<and> take 1 rest = ''.''
         \<and> drop 1 rest \<noteq> [] \<and> LF \<notin> set (drop 1 rest))"

definition check_bracketed_host :: "string \<Rightarrow> bool" where
  "check_bracketed_host hostname =
     (if startswith hostname ''v'' then ipvfuture hostname
      else (case ip_address hostname of
              None \<Rightarrow> False
            | Some (IPv4Address ip_int) \<Rightarrow> False
            | Some (IPv6Address ip_int scope_id) \<Rightarrow> True))"

definition urlsplit :: "string \<Rightarrow> (string \<times> string \<times> string \<times> string \<times> string) option" where
  "urlsplit url0 =
     (let url1 = dropWhile c0_control_or_space url0;
          url2 = remove_char LF (remove_char CR (remove_char (CHR 0x09) url1));
          (scheme, url3) =
            (case py_find url2 '':'' of
               None \<Rightarrow> ([], url2)
             | Some i \<Rightarrow>
                 if i > 0 \<and> ascii_letter (hd url2) \<and> list_all scheme_char (take i url2)
                 then (py_lower (take i url2), drop (i + 1) url2)
                 else ([], url2));
          (netloc, url4) = (if take 2 url3 = ''//'' then splitnetloc url3 2 else ([], url3));
          open_br = (CHR ''['' \<in> set netloc);
          close_br = (CHR '']'' \<in> set netloc)
      in if take 2 url3 = ''//'' \<and> ((open_br \<and> \<not> close_br) \<or> (close_br \<and> \<not> open_br)) then None
         else if take 2 url3 = ''//'' \<and> open_br \<and> close_br
                 \<and> \<not> check_bracketed_host
                       (fst (py_partition (snd (snd (py_partition netloc ''[''))) '']''))
         then None
         else (let (url5, fragment) =
                     (if CHR ''#'' \<in> set url4
                      then (case py_split1 url4 ''#'' of [a, b] \<Rightarrow> (a, b) | _ \<Rightarrow> (url4, []))
                      else (url4, []));
                   (url6, query) =
                     (if CHR ''?'' \<in> set url5
                      then (case py_split1 url5 ''?'' of [a, b] \<Rightarrow> (a, b) | _ \<Rightarrow> (url5, []))
                      else (url5, []))
               in Some (scheme, netloc, url6, query, fragment)))"

definition splitparams :: "string \<Rightarrow> string \<times> string" where
  "splitparams url =
     (case py_rfind url ''/'' of
        Some last_slash \<Rightarrow>
          (case py_find_from url '';'' last_slash of
             None \<Rightarrow> (url, [])
           | Some i \<Rightarrow> (take i url, drop (i + 1) url))
      | None \<Rightarrow>
          (case py_find url '';'' of
             None \<Rightarrow> (butlast url, url)
           | Some i \<Rightarrow> (take i url, drop (i + 1) url)))"

definition urlparse :: "string \<Rightarrow> parse_result option" where
  "urlparse url0 =
     (case urlsplit url0 of
        None \<Rightarrow> None
      | Some (scheme, netloc, url, query, fragment) \<Rightarrow>
          (let (url', params) =
                 (if scheme \<in> set uses_params \<and> CHR '';'' \<in> set url
                  then splitparams url else (url, []))
           in Some \<lparr>pr_scheme = scheme, pr_netloc = netloc, pr_path = url', pr_params = params,
                     pr_query = query, pr_fragment = fragment\<rparr>))"

text \<open>\<open>_hostinfo\<close>: the host and the port text of the network location.\<close>

definition hostinfo :: "parse_result \<Rightarrow> string \<times> string option" where
  "hostinfo p =
     (let info = snd (snd (py_rpartition (pr_netloc p) ''@''));
          (before, have_open_br, bracketed) = py_partition info ''['';
          (hostname, port) =
            (if have_open_br \<noteq> []
             then (case py_partition bracketed '']'' of
                     (hostname, sep, after) \<Rightarrow> (hostname, snd (snd (py_partition after '':''))))
             else (case py_partition info '':'' of
                     (hostname, sep, port) \<Rightarrow> (hostname, port)))
      in (hostname, if port = [] then None else Some port))"

definition url_hostname :: "parse_result \<Rightarrow> string option" where
  "url_hostname p =
     (let hostname = fst (hostinfo p) in
      if hostname = [] then None
      else (case py_partition hostname ''%'' of
              (name, percent, zone) \<Rightarrow> Some (py_lower name @ percent @ zone)))"

text \<open>
  The \<open>port\<close> property: the outer \<open>None\<close> is \<open>ValueError\<close> (a port text that is not made
  of ASCII digits, or a number above 65535), the inner one the absence of a port.
\<close>

definition url_port :: "parse_result \<Rightarrow> int option option" where
  "url_port p =
     (case snd (hostinfo p) of
        None \<Rightarrow> Some None
      | Some port \<Rightarrow>
          if list_all ascii_digit port
          then (case py_int port of
                  None \<Rightarrow> None
                | Some n \<Rightarrow> if 0 \<le> n \<and> n \<le> 65535 then Some (Some n) else None)
          else None)"

subsection \<open>\<open>HTTPParser.parse_request\<close>\<close>

record request =
  req_method :: string
  req_host :: string
  req_port :: int
  req_path :: string
  req_line :: string
  req_headers :: "(string \<times> string) list"
  req_version :: string

text \<open>
  The header dictionary is an association list in insertion order; storing under a key
  already present replaces the value in place, as a Python dictionary does.
\<close>

definition add_header :: "(string \<times> string) list \<Rightarrow> string \<Rightarrow> (string \<times> string) list" where
  "add_header hs line =
     (if CHR '':'' \<in> set line
      then (case py_split1 line '':'' of
              [key, val] \<Rightarrow> AList.update (py_lower (py_strip key)) (py_strip val) hs
            | _ \<Rightarrow> hs)
      else hs)"

definition parse_headers :: "string \<Rightarrow> (string \<times> string) list" where
  "parse_headers request_text =
     (case py_find request_text (CRLF @ CRLF) of
        None \<Rightarrow> []
      | Some header_end \<Rightarrow>
          foldl add_header [] (tl (py_split (take header_end request_text) CRLF)))"

definition headers_get :: "(string \<times> string) list \<Rightarrow> string \<Rightarrow> string \<Rightarrow> string" where
  "headers_get hs key dflt = (case map_of hs key of Some v \<Rightarrow> v | None \<Rightarrow> dflt)"

text \<open>
  Host, port and path of a request with an absolute URI; \<open>None\<close> when the library raises
  (the \<open>except Exception\<close> of \<open>parse_request\<close>). The host may still be absent.
\<close>

definition absolute_target :: "string \<Rightarrow> (string option \<times> int \<times> string) option" where
  "absolute_target target =
     (case urlparse target of
        None \<Rightarrow> None
      | Some parsed \<Rightarrow>
          (case url_port parsed of
             None \<Rightarrow> None
           | Some parsed_port \<Rightarrow>
               (let port = (case parsed_port of
                              Some n \<Rightarrow> if n \<noteq> 0 then n
                                        else if pr_scheme parsed = ''https'' then 443 else 80
                            | None \<Rightarrow> if pr_scheme parsed = ''https'' then 443 else 80);
                    path0 = (if pr_path parsed = [] then ''/'' else pr_path parsed);
                    path = (if pr_query parsed \<noteq> [] then path0 @ ''?'' @ pr_query parsed else path0)
                in Some (url_hostname parsed, port, path))))"

text \<open>Host and port of a request in any other form, from the \<open>Host\<close> header.\<close>

definition header_target :: "(string \<times> string) list \<Rightarrow> string \<times> int" where
  "header_target hs =
     (let host_header = headers_get hs ''host'' [] in
      if CHR '':'' \<in> set host_header
      then (case py_rsplit1 host_header '':'' of
              [host, port_str] \<Rightarrow>
                (host, case py_int port_str of Some n \<Rightarrow> n | None \<Rightarrow> 80)
            | _ \<Rightarrow> (host_header, 80))
      else (host_header, 80))"

definition parse_request :: "string \<Rightarrow> request option" where
  "parse_request request_data =
     (let request_text = decode_utf8_ignore request_data;
          lines = py_split request_text CRLF;
          request_line = hd lines
      in case match_request_line request_line of
           None \<Rightarrow> None
         | Some (m, target, version) \<Rightarrow>
             (let method = py_upper m;
                  headers = parse_headers request_text
              in if startswith target ''http://'' \<or> startswith target ''https://''
                 then (case absolute_target target of
                         None \<Rightarrow> None
                       | Some (None, port, path) \<Rightarrow> None
                       | Some (Some host, port, path) \<Rightarrow>
                           if host = [] then None
                           else Some \<lparr>req_method = method, req_host = host, req_port = port,
                                       req_path = path, req_line = request_line,
                                       req_headers = headers, req_version = version\<rparr>)
                 else (case header_target headers of
                         (host, port) \<Rightarrow>
                           if host = [] then None
                           else Some \<lparr>req_method = method, req_host = host, req_port = port,
                                       req_path = target, req_line = request_line,
                                       req_headers = headers, req_version = version\<rparr>)))"

subsection \<open>The specification's vocabulary for requests\<close>

text \<open>
  The request line of a request, its method token (the characters before the first
  white space), the two forms of a request-target, and the port text an absolute URI
  writes, as the library reads it.
\<close>

definition first_line :: "string \<Rightarrow> string" where
  "first_line request_data = hd (py_split (decode_utf8_ignore request_data) CRLF)"


definition absolute_form :: "string \<Rightarrow> bool" where
  "absolute_form target = (startswith target ''http://'' \<or> startswith target ''https://'')"

definition written_port :: "string \<Rightarrow> string option" where
  "written_port target =
     (case urlparse target of None \<Rightarrow> None | Some parsed \<Rightarrow> snd (hostinfo parsed))"

section \<open>The proxy server (\<open>proxy_server.py\<close>)\<close>

subsection \<open>Sockets\<close>

text \<open>
  What a peer does on a connection is a list of events: it sends some bytes, it closes
  the connection, the read times out, or the read fails. \<open>recv n\<close> returns at most \<open>n\<close>
  bytes of the data that has arrived and leaves the rest for the next call; the empty
  byte string is the end of the stream. When nothing more is going to happen, the read
  times out.
\<close>

datatype sock_event = Data string | Closed | TimedOut | Failed

type_synonym socket = "sock_event list"

datatype recv_result = Received string | RecvTimeout | RecvError

fun recv :: "nat \<Rightarrow> socket \<Rightarrow> recv_result \<times> socket" where
  "recv n [] = (RecvTimeout, [])"
| "recv n (Data bs # es) =
     (if length bs \<le> n then (Received bs, es)
      else (Received (take n bs), Data (drop n bs) # es))"
| "recv n (Closed # es) = (Received [], Closed # es)"
| "recv n (TimedOut # es) = (RecvTimeout, es)"
| "recv n (Failed # es) = (RecvError, es)"

text \<open>What is still to come on a connection: the events and the bytes they carry.\<close>

fun pending :: "socket \<Rightarrow> nat" where
  "pending [] = 0"
| "pending (Data bs # es) = Suc (length bs + pending es)"
| "pending (e # es) = Suc (pending es)"

lemma recv_pending:
  assumes "recv n sock = (Received chunk, sock')" and "chunk \<noteq> []"
  shows "pending sock' < pending sock"
proof (cases sock)
  case Nil
  then show ?thesis using assms by simp
next
  case (Cons ev evs)
  then show ?thesis
    using assms by (cases ev) (auto split: if_splits)
qed

subsection \<open>\<open>ProxyServer._receive_request\<close>\<close>

text \<open>
  The result of the reader: the bytes read, \<open>None\<close> returned silently, or \<open>None\<close>
  returned after the error has been logged.
\<close>

datatype received = Request string | Nothing | ReceiveError

definition finish :: "string \<Rightarrow> received" where
  "finish data = (if data \<noteq> [] then Request data else Nothing)"

text \<open>
  The loop over the header lines that looks for \<open>Content-Length\<close>: the first line whose
  value is an integer wins; 0 when there is none. A line that starts with
  \<open>content-length:\<close> has a colon, so the cut at the first colon gives two pieces.
\<close>

fun find_content_length :: "string list \<Rightarrow> int" where
  "find_content_length [] = 0"
| "find_content_length (line # rest) =
     (if startswith (py_lower line) ''content-length:''
      then (case py_split1 line '':'' of
              [name, val] \<Rightarrow>
                (case py_int (py_strip val) of
                   Some n \<Rightarrow> n
                 | None \<Rightarrow> find_content_length rest)
            | _ \<Rightarrow> find_content_length rest)
      else find_content_length rest)"

text \<open>
  The inner loop, which reads the declared body. A time-out leaves the loops with the
  data read so far; another error is logged and gives \<open>None\<close>.
\<close>

function read_body :: "string \<Rightarrow> int \<Rightarrow> int \<Rightarrow> socket \<Rightarrow> received \<times> socket" where
  "read_body data body_received content_length sock =
     (if body_received < content_length
      then (case recv (nat (min 4096 (content_length - body_received))) sock of
              (Received chunk, sock') \<Rightarrow>
                if chunk = [] then (finish data, sock')
                else read_body (data @ chunk) (body_received + int (length chunk))
                       content_length sock'
            | (RecvTimeout, sock') \<Rightarrow> (finish data, sock')
            | (RecvError, sock') \<Rightarrow> (ReceiveError, sock'))
      else (finish data, sock))"
  by pat_completeness auto
termination
  by (relation "measure (\<lambda>(data, body_received, content_length, sock).
        nat (content_length - body_received))") auto

declare read_body.simps [simp del]

text \<open>The outer loop: \<open>while len(data) < max_size\<close>, one \<open>recv(4096)\<close> per turn.\<close>

function receive_loop :: "nat \<Rightarrow> string \<Rightarrow> socket \<Rightarrow> received \<times> socket" where
  "receive_loop max_size data sock =
     (if length data < max_size
      then (case recv 4096 sock of
              (Received chunk, sock') \<Rightarrow>
                if chunk = [] then (finish data, sock')
                else (let data' = data @ chunk in
                  case py_find data' (CRLF @ CRLF) of
                    Some header_end \<Rightarrow>
                      (let headers = decode_utf8_ignore (take header_end data');
                           content_length = find_content_length (py_split headers CRLF)
                       in if content_length > 0
                          then read_body data' (int (length data') - int (header_end + 4))
                                 content_length sock'
                          else (finish data', sock'))
                  | None \<Rightarrow> receive_loop max_size data' sock')
            | (RecvTimeout, sock') \<Rightarrow> (finish data, sock')
            | (RecvError, sock') \<Rightarrow> (ReceiveError, sock'))
      else (finish data, sock))"
  by pat_completeness auto
termination
proof (relation "measure (\<lambda>(max_size, data, sock). max_size - length data)")
  show "wf (measure (\<lambda>(max_size, data, sock). max_size - length data))"
    by simp
next
  fix max_size :: nat and data :: string and sock sock' :: socket and chunk data' :: string
  assume "length data < max_size" "chunk \<noteq> []" "data' = data @ chunk"
  then have "max_size - length data' < max_size - length data"
    by (cases chunk) auto
  then show "((max_size, data', sock'), (max_size, data, sock))
        \<in> measure (\<lambda>(max_size, data, sock). max_size - length data)"
    by simp
qed

declare receive_loop.simps [simp del]

definition receive_request :: "socket \<Rightarrow> nat \<Rightarrow> received \<times> socket" where
  "receive_request client_socket max_size = receive_loop max_size [] client_socket"

definition MAX_REQUEST :: nat where
  "MAX_REQUEST = 8192"

subsection \<open>The handler of one connection\<close>

text \<open>
  The handler's effects are the calls it makes, in order: log entries, \<open>sendall\<close> and
  \<open>close\<close> on the client socket, \<open>connect\<close>, \<open>sendall\<close> and \<open>close\<close> on the origin
  socket, the tunnel, and the release of the semaphore. A \<open>sendall\<close> is recorded with
  its bytes whether it succeeds or raises.
\<close>

datatype error_kind = ReceiveFailed | ParseFailed | ConnectTimeout | ForwardFailed | HandlerFailed

datatype log_event =
    ERROR error_kind
  | BLOCKED string int string int string
  | ALLOWED string int string int string string nat

datatype action =
    Log log_event
  | ClientSend string
  | ClientClose
  | OriginConnect string int
  | OriginSend string
  | OriginClose
  | Tunnel
  | ReleasePermit

datatype io_outcome = Done | Timeout | Failure

datatype exn = SocketTimeout | OtherException

text \<open>
  The surroundings of one connection: the client's address, what the client sends,
  whether writing to the client works, whether the origin accepts the connection, what
  it sends, whether writing to it works, and the state of the rules file.
\<close>

record world =
  client_ip :: string
  client_port :: int
  client_recv :: socket
  client_send :: io_outcome
  origin_connect :: io_outcome
  origin_send :: io_outcome
  origin_recv :: socket
  rules_file :: file_system

definition raised :: "io_outcome \<Rightarrow> exn option" where
  "raised r = (case r of Done \<Rightarrow> None | Timeout \<Rightarrow> Some SocketTimeout
               | Failure \<Rightarrow> Some OtherException)"

definition forbidden_response :: string where
  "forbidden_response =
     ''HTTP/1.1 403 Forbidden'' @ CRLF @ ''Content-Type: text/plain'' @ CRLF
     @ ''Content-Length: 13'' @ CRLF @ ''Connection: close'' @ CRLF @ CRLF
     @ ''Access Denied''"

definition gateway_timeout :: string where
  "gateway_timeout = ''HTTP/1.1 504 Gateway Timeout'' @ CRLF @ CRLF"

definition bad_gateway :: string where
  "bad_gateway = ''HTTP/1.1 502 Bad Gateway'' @ CRLF @ CRLF"

definition connection_established :: string where
  "connection_established = ''HTTP/1.1 200 Connection Established'' @ CRLF @ CRLF"

text \<open>\<open>s.split()\<close>: the words between runs of white space.\<close>

fun words_from :: "string \<Rightarrow> string \<Rightarrow> string list" where
  "words_from acc [] = (if acc = [] then [] else [rev acc])"
| "words_from acc (c # cs) =
     (if isspace c then (if acc = [] then words_from [] cs else rev acc # words_from [] cs)
      else words_from (c # acc) cs)"

definition status_of_chunk :: "string \<Rightarrow> string \<Rightarrow> string" where
  "status_of_chunk status_code chunk =
     (let status_line = hd (py_split (decode_utf8_ignore chunk) CRLF) in
      if contains status_line ''HTTP''
      then (let parts = words_from [] status_line in
            if length parts \<ge> 2 then parts ! 1 else status_code)
      else status_code)"

text \<open>
  The loop that copies the response: each chunk of the origin goes to the client. The
  result is the exception that ended the loop, if any, the calls made, the size copied
  and the status code.
\<close>

function relay_response ::
  "io_outcome \<Rightarrow> nat \<Rightarrow> string \<Rightarrow> socket \<Rightarrow> exn option \<times> action list \<times> nat \<times> string" where
  "relay_response to_client response_size status_code sock =
     (case recv 4096 sock of
        (Received chunk, sock') \<Rightarrow>
          if chunk = [] then (None, [], response_size, status_code)
          else (let status_code' =
                      (if response_size = 0 then status_of_chunk status_code chunk
                       else status_code)
                in case raised to_client of
                     Some e \<Rightarrow> (Some e, [ClientSend chunk], response_size, status_code')
                   | None \<Rightarrow>
                       (case relay_response to_client (response_size + length chunk)
                               status_code' sock' of
                          (e, acts, copied, status) \<Rightarrow> (e, ClientSend chunk # acts, copied, status)))
      | (RecvTimeout, sock') \<Rightarrow> (Some SocketTimeout, [], response_size, status_code)
      | (RecvError, sock') \<Rightarrow> (Some OtherException, [], response_size, status_code))"
  by pat_completeness auto
termination
  by (relation "measure (\<lambda>(to_client, response_size, status_code, sock). pending sock)")
     (auto dest: recv_pending[OF sym])

declare relay_response.simps [simp del]

text \<open>
  The \<open>except\<close> clauses shared by the two relays: the error is logged and a 504 or a 502
  goes to the client; if that write raises, the exception leaves the relay.
\<close>

definition relay_failed :: "world \<Rightarrow> exn \<Rightarrow> exn option \<times> action list" where
  "relay_failed w e =
     (raised (client_send w),
      (case e of
         SocketTimeout \<Rightarrow> [Log (ERROR ConnectTimeout), ClientSend gateway_timeout]
       | OtherException \<Rightarrow> [Log (ERROR ForwardFailed), ClientSend bad_gateway]))"

definition handle_http_request :: "world \<Rightarrow> request \<Rightarrow> string \<Rightarrow> exn option \<times> action list" where
  "handle_http_request w req request_data =
     (let connect = [OriginConnect (req_host req) (req_port req)];
          (e, acts) =
            (case raised (origin_connect w) of
               Some e \<Rightarrow> (Some e, connect)
             | None \<Rightarrow>
                 (case raised (origin_send w) of
                    Some e \<Rightarrow> (Some e, connect @ [OriginSend request_data])
                  | None \<Rightarrow>
                      (case relay_response (client_send w) 0 ''000'' (origin_recv w) of
                         (Some e, sends, copied, status) \<Rightarrow>
                           (Some e, connect @ [OriginSend request_data] @ sends)
                       | (None, sends, copied, status) \<Rightarrow>
                           (None, connect @ [OriginSend request_data] @ sends
                              @ [Log (ALLOWED (client_ip w) (client_port w) (req_host req)
                                    (req_port req) (req_line req) status copied)]))))
      in case e of
           None \<Rightarrow> (None, acts @ [OriginClose])
         | Some e \<Rightarrow>
             (case relay_failed w e of
                (e', acts') \<Rightarrow> (e', acts @ acts' @ [OriginClose])))"

definition handle_connect :: "world \<Rightarrow> request \<Rightarrow> exn option \<times> action list" where
  "handle_connect w req =
     (let connect = [OriginConnect (req_host req) (req_port req)];
          (e, acts) =
            (case raised (origin_connect w) of
               Some e \<Rightarrow> (Some e, connect)
             | None \<Rightarrow>
                 (case raised (client_send w) of
                    Some e \<Rightarrow> (Some e, connect @ [ClientSend connection_established])
                  | None \<Rightarrow>
                      (None, connect @ [ClientSend connection_established,
                         Log (ALLOWED (client_ip w) (client_port w) (req_host req)
                                (req_port req) (req_line req) ''200'' 0),
                         Tunnel])))
      in case e of
           None \<Rightarrow> (None, acts @ [OriginClose])
         | Some e \<Rightarrow>
             (case relay_failed w e of
                (e', acts') \<Rightarrow> (e', acts @ acts' @ [OriginClose])))"

text \<open>
  \<open>_handle_client\<close>: read, parse, reload the rules if the file changed, refuse a blocked
  host with the 403 response, otherwise relay. The \<open>finally\<close> clause closes the client
  socket and releases the semaphore on every path.
\<close>

definition handle_client :: "filter_manager \<Rightarrow> world \<Rightarrow> filter_manager \<times> action list" where
  "handle_client fm w =
     (case fst (receive_request (client_recv w) MAX_REQUEST) of
        ReceiveError \<Rightarrow> (fm, [Log (ERROR ReceiveFailed), ClientClose, ReleasePermit])
      | Nothing \<Rightarrow> (fm, [ClientClose, ReleasePermit])
      | Request request_data \<Rightarrow>
          (case parse_request request_data of
             None \<Rightarrow> (fm, [Log (ERROR ParseFailed), ClientClose, ClientClose, ReleasePermit])
           | Some req \<Rightarrow>
               (let fm' = snd (reload_if_changed fm (rules_file w)) in
                if is_blocked fm' (req_host req)
                then (fm',
                      [Log (BLOCKED (client_ip w) (client_port w) (req_host req)
                              (req_port req) (req_line req)),
                       ClientSend forbidden_response]
                      @ (case raised (client_send w) of
                           None \<Rightarrow> [ClientClose]
                         | Some e \<Rightarrow> [Log (ERROR HandlerFailed)])
                      @ [ClientClose, ReleasePermit])
                else (case (if req_method req = ''CONNECT'' then handle_connect w req
                            else handle_http_request w req request_data) of
                        (e, acts) \<Rightarrow>
                          (fm',
                           acts
                           @ (case e of None \<Rightarrow> [] | Some e \<Rightarrow> [Log (ERROR HandlerFailed)])
                           @ [ClientClose, ReleasePermit])))))"

text \<open>What the specification asks of the calls made for a blocked request.\<close>

fun client_sends :: "action list \<Rightarrow> string list" where
  "client_sends [] = []"
| "client_sends (ClientSend bs # as) = bs # client_sends as"
| "client_sends (a # as) = client_sends as"

fun blocked_events :: "action list \<Rightarrow> nat" where
  "blocked_events [] = 0"
| "blocked_events (Log (BLOCKED cip cport h p l) # as) = Suc (blocked_events as)"
| "blocked_events (a # as) = blocked_events as"

fun origin_connects :: "action list \<Rightarrow> nat" where
  "origin_connects [] = 0"
| "origin_connects (OriginConnect h p # as) = Suc (origin_connects as)"
| "origin_connects (a # as) = origin_connects as"

text \<open>The calls made after the first \<open>sendall\<close> on the client socket.\<close>

fun after_client_send :: "action list \<Rightarrow> action list" where
  "after_client_send [] = []"
| "after_client_send (ClientSend bs # as) = as"
| "after_client_send (a # as) = after_client_send as"

text \<open>
  A request declares a body when its header block, up to the first blank line, has a
  \<open>Content-Length\<close> above zero, as the reader computes it.
\<close>

definition declares_body :: "string \<Rightarrow> bool" where
  "declares_body data =
     (case py_find data (CRLF @ CRLF) of
        None \<Rightarrow> False
      | Some header_end \<Rightarrow>
          find_content_length (py_split (decode_utf8_ignore (take header_end data)) CRLF) > 0)"

section \<open>Proofs\<close>

subsection \<open>Evaluation\<close>

lemmas string_defs = CR_def LF_def CRLF_def isspace_def isupper_def ascii_lower_def
  ascii_upper_def ascii_letter_def ascii_digit_def lower_char_def upper_char_def py_lower_def
  py_upper_def py_lstrip_def py_rstrip_def py_strip_def startswith_def endswith_def
  contains_def py_partition_def py_rpartition_def py_split_def py_split1_def py_rsplit1_def
  remove_char_def digit_chars_def digit_value_def hex_digit_def number_of_digits_def

lemmas ip_defs = parse_octet_def int_from_parts_def ipv4_int_from_string_def ipv4_address_def
  ipv4_string_from_int_def parse_hextet_def ipv6_int_from_string_def split_scope_id_def
  ipv6_address_def compress_hextets_def ipv6_string_from_int_def ip_address_def

lemma replicate_numeral: "replicate (numeral v) x = x # replicate (numeral v - 1) x"
  by (simp add: numeral_eq_Suc)

lemmas parser_defs = version_text_def match_tail_def match_request_line_def int_space_def
  py_int_def c0_control_or_space_def scheme_char_def uses_params_def py_find_from_def
  splitnetloc_def ipvfuture_def check_bracketed_host_def urlsplit_def splitparams_def
  urlparse_def hostinfo_def url_hostname_def url_port_def add_header_def parse_headers_def
  headers_get_def absolute_target_def header_target_def parse_request_def
  decode_utf8_ignore_def


subsection \<open>The filter manager\<close>

lemma suffix_blocked_iff:
  "suffix_blocked ss h = list_ex (\<lambda>s. endswith h (''.'' @ s) \<or> h = s) ss"
  by (induction ss) auto

lemma strip_comment:
  assumes "startswith c ''#''"
  shows "startswith (py_strip c) ''#''"
proof -
  from assms obtain r where c: "c = CHR ''#'' # r"
    by (cases c) (auto simp: startswith_def)
  have ns: "\<not> isspace (CHR ''#'')" by (simp add: isspace_def)
  have "rev (dropWhile isspace (rev r @ [CHR ''#''])) = CHR ''#'' # rev (dropWhile isspace (rev r))"
    using ns by (simp add: dropWhile_append)
  then show ?thesis using ns c
    by (simp add: py_strip_def py_lstrip_def py_rstrip_def startswith_def)
qed

lemma strip_blank:
  assumes "list_all isspace c"
  shows "py_strip c = []"
proof -
  have e: "dropWhile isspace c = []"
    using assms by (induction c) auto
  show ?thesis
    unfolding py_strip_def py_lstrip_def py_rstrip_def e by simp
qed

lemma load_line_comment: "startswith c ''#'' \<Longrightarrow> load_line fm c = fm"
  using strip_comment[of c] by (simp add: load_line_def Let_def)

lemma load_line_blank: "list_all isspace c \<Longrightarrow> load_line fm c = fm"
  by (simp add: load_line_def strip_blank)

lemma load_line_domains:
  "blocked_domains (load_line fm l) = blocked_domains fm \<union> blocked_domains (load_line new_filter_manager l)"
  by (simp add: load_line_def Let_def new_filter_manager_def split: option.splits)

lemma load_line_ips:
  "blocked_ips (load_line fm l) = blocked_ips fm \<union> blocked_ips (load_line new_filter_manager l)"
  by (simp add: load_line_def Let_def new_filter_manager_def split: option.splits)

lemma load_line_suffixes:
  "blocked_suffixes (load_line fm l) = blocked_suffixes fm @ blocked_suffixes (load_line new_filter_manager l)"
  by (simp add: load_line_def Let_def new_filter_manager_def split: option.splits)

lemma load_line_mtime: "last_modified (load_line fm l) = last_modified fm"
  by (simp add: load_line_def Let_def split: option.splits)

lemma load_lines_domains:
  "blocked_domains (load_lines fm ls) =
     blocked_domains fm \<union> (\<Union>l\<in>set ls. blocked_domains (load_line new_filter_manager l))"
proof (induction ls arbitrary: fm)
  case Nil
  then show ?case by (simp add: load_lines_def)
next
  case (Cons l ls)
  have "blocked_domains (load_lines (load_line fm l) ls) =
        blocked_domains (load_line fm l) \<union> (\<Union>l\<in>set ls. blocked_domains (load_line new_filter_manager l))"
    by (rule Cons.IH)
  then show ?case
    using load_line_domains[of fm l] by (auto simp: load_lines_def)
qed

lemma load_lines_ips:
  "blocked_ips (load_lines fm ls) =
     blocked_ips fm \<union> (\<Union>l\<in>set ls. blocked_ips (load_line new_filter_manager l))"
proof (induction ls arbitrary: fm)
  case Nil
  then show ?case by (simp add: load_lines_def)
next
  case (Cons l ls)
  have "blocked_ips (load_lines (load_line fm l) ls) =
        blocked_ips (load_line fm l) \<union> (\<Union>l\<in>set ls. blocked_ips (load_line new_filter_manager l))"
    by (rule Cons.IH)
  then show ?case
    using load_line_ips[of fm l] by (auto simp: load_lines_def)
qed

lemma load_lines_suffixes:
  "blocked_suffixes (load_lines fm ls) =
     blocked_suffixes fm @ concat (map (\<lambda>l. blocked_suffixes (load_line new_filter_manager l)) ls)"
proof (induction ls arbitrary: fm)
  case Nil
  then show ?case by (simp add: load_lines_def)
next
  case (Cons l ls)
  have "blocked_suffixes (load_lines (load_line fm l) ls) =
        blocked_suffixes (load_line fm l) @ concat (map (\<lambda>l. blocked_suffixes (load_line new_filter_manager l)) ls)"
    by (rule Cons.IH)
  then show ?case
    using load_line_suffixes[of fm l] by (simp add: load_lines_def)
qed

lemma load_lines_mtime: "last_modified (load_lines fm ls) = last_modified fm"
  by (induction ls arbitrary: fm) (simp_all add: load_lines_def load_line_mtime)

lemma is_blocked_cong:
  assumes "blocked_domains a = blocked_domains b" "blocked_ips a = blocked_ips b"
    "set (blocked_suffixes a) = set (blocked_suffixes b)"
  shows "is_blocked a h = is_blocked b h"
  unfolding is_blocked_def suffix_blocked_iff list_ex_iff Let_def assms ..

lemma load_filters_lines:
  "\<exists>ls. blocked_domains (load_filters fm fs) = blocked_domains (load_lines new_filter_manager ls)
      \<and> blocked_ips (load_filters fm fs) = blocked_ips (load_lines new_filter_manager ls)
      \<and> blocked_suffixes (load_filters fm fs) = blocked_suffixes (load_lines new_filter_manager ls)"
proof (cases "fs_read fs")
  case OpenError
  then have "blocked_domains (load_filters fm fs) = blocked_domains (load_lines new_filter_manager [])
      \<and> blocked_ips (load_filters fm fs) = blocked_ips (load_lines new_filter_manager [])
      \<and> blocked_suffixes (load_filters fm fs) = blocked_suffixes (load_lines new_filter_manager [])"
    by (simp add: load_filters_def clear_filters_def load_lines_def new_filter_manager_def)
  then show ?thesis by blast
next
  case (ReadOk ls)
  then have "blocked_domains (load_filters fm fs) = blocked_domains (load_lines new_filter_manager ls)
      \<and> blocked_ips (load_filters fm fs) = blocked_ips (load_lines new_filter_manager ls)
      \<and> blocked_suffixes (load_filters fm fs) = blocked_suffixes (load_lines new_filter_manager ls)"
    by (simp add: load_filters_def clear_filters_def Let_def load_lines_domains load_lines_ips
        load_lines_suffixes new_filter_manager_def split: option.splits)
  then show ?thesis by blast
next
  case (ReadFails ls)
  then have "blocked_domains (load_filters fm fs) = blocked_domains (load_lines new_filter_manager ls)
      \<and> blocked_ips (load_filters fm fs) = blocked_ips (load_lines new_filter_manager ls)
      \<and> blocked_suffixes (load_filters fm fs) = blocked_suffixes (load_lines new_filter_manager ls)"
    by (simp add: load_filters_def clear_filters_def Let_def load_lines_domains load_lines_ips
        load_lines_suffixes new_filter_manager_def)
  then show ?thesis by blast
qed

lemma failed_load_fields:
  assumes "lines_before_failure (fs_read fs) = Some ls"
  shows "blocked_domains (load_filters fm fs) = blocked_domains (load_lines new_filter_manager ls)
      \<and> blocked_ips (load_filters fm fs) = blocked_ips (load_lines new_filter_manager ls)
      \<and> blocked_suffixes (load_filters fm fs) = blocked_suffixes (load_lines new_filter_manager ls)
      \<and> last_modified (load_filters fm fs) = last_modified fm"
proof (cases "fs_read fs")
  case OpenError
  with assms show ?thesis
    by (auto simp: load_filters_def clear_filters_def load_lines_def new_filter_manager_def)
next
  case (ReadOk ls')
  with assms show ?thesis by simp
next
  case (ReadFails ls')
  with assms show ?thesis
    by (auto simp: load_filters_def clear_filters_def Let_def load_lines_domains load_lines_ips
        load_lines_suffixes load_lines_mtime new_filter_manager_def)
qed

text \<open>
  What a failed load leaves behind. When the file cannot be opened, or a read raises,
  the rule set afterwards is the one of the lines read before the failure (none when the
  open failed), whatever was loaded before; only the stored modification time keeps
  its value.
\<close>

lemma failed_load_result:
  assumes "lines_before_failure (fs_read fs) = Some ls"
    and "fm' = load_filters fm fs \<or> reload_if_changed fm fs = (True, fm')
         \<or> force_reload fm fs = (True, fm')"
  shows "blocked_domains fm' = blocked_domains (load_lines new_filter_manager ls)
      \<and> blocked_ips fm' = blocked_ips (load_lines new_filter_manager ls)
      \<and> blocked_suffixes fm' = blocked_suffixes (load_lines new_filter_manager ls)
      \<and> last_modified fm' = last_modified fm"
proof -
  from assms(2) have "fm' = load_filters fm fs"
    by (auto simp: reload_if_changed_def force_reload_def split: if_splits option.splits)
  then show ?thesis using failed_load_fields[OF assms(1)] by simp
qed

text \<open>
  C1, the code at the failing input. The rule \<open>blocked.test\<close> is loaded; the file then
  changes and cannot be opened. \<open>reload_if_changed\<close> reports a reload, and the rule set
  that was loaded is gone: the filter is left empty, where the claim has the previous
  rule set left in place.
\<close>

theorem failed_reload_empties_rules:
  "fst (reload_if_changed
      \<lparr>blocked_domains = {''blocked.test''}, blocked_ips = {}, blocked_suffixes = [],
       last_modified = 0\<rparr>
      \<lparr>fs_exists = True, fs_getmtime = Some 5, fs_read = OpenError\<rparr>)
   \<and> blocked_domains (snd (reload_if_changed
      \<lparr>blocked_domains = {''blocked.test''}, blocked_ips = {}, blocked_suffixes = [],
       last_modified = 0\<rparr>
      \<lparr>fs_exists = True, fs_getmtime = Some 5, fs_read = OpenError\<rparr>)) = {}
   \<and> is_blocked \<lparr>blocked_domains = {''blocked.test''}, blocked_ips = {},
       blocked_suffixes = [], last_modified = 0\<rparr> ''blocked.test''
   \<and> \<not> is_blocked (snd (reload_if_changed
      \<lparr>blocked_domains = {''blocked.test''}, blocked_ips = {}, blocked_suffixes = [],
       last_modified = 0\<rparr>
      \<lparr>fs_exists = True, fs_getmtime = Some 5, fs_read = OpenError\<rparr>)) ''blocked.test''"
proof -
  have h: "py_strip (py_lower ''blocked.test'') = ''blocked.test''"
    by (simp add: string_defs)
  have i: "ip_address ''blocked.test'' = None"
    by (simp add: string_defs ip_defs Let_def)
  show ?thesis
    unfolding is_blocked_def Let_def h i
    by (simp add: reload_if_changed_def load_filters_def clear_filters_def)
qed

lemma ip_ads_rule: "ip_address ''*.ads.test'' = None"
  by (simp add: string_defs ip_defs Let_def)

lemma ip_ads: "ip_address ''ads.test'' = None"
  by (simp add: string_defs ip_defs Let_def)

lemma ip_a_b_ads: "ip_address ''a.b.ads.test'' = None"
  by (simp add: string_defs ip_defs Let_def)

lemma ip_notads: "ip_address ''notads.test'' = None"
  by (simp add: string_defs ip_defs Let_def)

lemma ip_0001: "ip_address ''::0001'' = Some (IPv6Address 1 None)"
  by (simp add: string_defs ip_defs Let_def replicate_numeral)

lemma ip_str_1: "ip_str (IPv6Address 1 None) = ''::1''"
  by (simp add: string_defs ip_defs Let_def)

lemma canon_0001:
  "(case ip_address ''::0001'' of Some ip \<Rightarrow> ip_str ip \<in> S | None \<Rightarrow> False) = (''::1'' \<in> S)"
  unfolding ip_0001 option.case ip_str_1 ..

lemma load_ads_rule:
  "load_line fm ''*.ads.test'' = fm\<lparr>blocked_suffixes := blocked_suffixes fm @ [''ads.test'']\<rparr>"
  by (simp add: load_line_def ip_ads_rule Let_def string_defs)

lemma load_0001:
  "load_line fm ''::0001'' = fm\<lparr>blocked_ips := insert ''::0001'' (blocked_ips fm)\<rparr>"
  by (simp add: load_line_def ip_0001 Let_def string_defs)

lemma load_filters_ReadOk:
  "fs_read fs = ReadOk ls \<Longrightarrow>
     blocked_domains (load_filters fm fs) = blocked_domains (load_lines (clear_filters fm) ls)
   \<and> blocked_ips (load_filters fm fs) = blocked_ips (load_lines (clear_filters fm) ls)
   \<and> blocked_suffixes (load_filters fm fs) = blocked_suffixes (load_lines (clear_filters fm) ls)"
  by (simp add: load_filters_def Let_def split: option.splits)

lemma ads_rule_set:
  assumes "fs_read fs = ReadOk [''*.ads.test'']"
  shows "blocked_domains (load_filters fm fs) = {} \<and> blocked_ips (load_filters fm fs) = {}
     \<and> blocked_suffixes (load_filters fm fs) = [''ads.test'']"
  using load_filters_ReadOk[OF assms, of fm]
  by (simp add: load_lines_def load_ads_rule clear_filters_def)

text \<open>
  C3 (as the code has it). For a non-empty host, \<open>is_blocked\<close> is true exactly when the
  lower-cased, trimmed host is itself an entry of the IP rules, or parses as an IP
  address whose canonical form is an IP rule, or is an exact-domain rule, or equals a
  suffix rule or ends with a dot followed by one. With the single rule \<open>*.ads.test\<close>,
  \<open>a.b.ads.test\<close> and \<open>ads.test\<close> are blocked and \<open>notads.test\<close> is not.
\<close>

theorem is_blocked_iff:
  "(host \<noteq> [] \<longrightarrow>
      is_blocked fm host =
        (let h = py_strip (py_lower host) in
           h \<in> blocked_ips fm
         \<or> (\<exists>ip. ip_address h = Some ip \<and> ip_str ip \<in> blocked_ips fm)
         \<or> h \<in> blocked_domains fm
         \<or> (\<exists>s\<in>set (blocked_suffixes fm). h = s \<or> endswith h (''.'' @ s))))
   \<and> (fs_read fs = ReadOk [''*.ads.test''] \<longrightarrow>
        is_blocked (load_filters fm0 fs) ''a.b.ads.test''
      \<and> is_blocked (load_filters fm0 fs) ''ads.test''
      \<and> \<not> is_blocked (load_filters fm0 fs) ''notads.test'')"
proof (intro conjI impI)
  assume "host \<noteq> []"
  then show "is_blocked fm host =
        (let h = py_strip (py_lower host) in
           h \<in> blocked_ips fm
         \<or> (\<exists>ip. ip_address h = Some ip \<and> ip_str ip \<in> blocked_ips fm)
         \<or> h \<in> blocked_domains fm
         \<or> (\<exists>s\<in>set (blocked_suffixes fm). h = s \<or> endswith h (''.'' @ s)))"
    by (auto simp: is_blocked_def Let_def suffix_blocked_iff list_ex_iff split: option.splits)
next
  assume r: "fs_read fs = ReadOk [''*.ads.test'']"
  show "is_blocked (load_filters fm0 fs) ''a.b.ads.test''"
    using ads_rule_set[OF r, of fm0]
    by (simp add: is_blocked_def Let_def ip_a_b_ads string_defs)
  show "is_blocked (load_filters fm0 fs) ''ads.test''"
    using ads_rule_set[OF r, of fm0]
    by (simp add: is_blocked_def Let_def ip_ads string_defs)
  show "\<not> is_blocked (load_filters fm0 fs) ''notads.test''"
    using ads_rule_set[OF r, of fm0]
    by (simp add: is_blocked_def Let_def ip_notads string_defs)
qed

theorem is_blocked_iff_witness:
  "''Ads.Test '' \<noteq> []
   \<and> fs_read \<lparr>fs_exists = True, fs_getmtime = Some 1, fs_read = ReadOk [''*.ads.test'']\<rparr>
       = ReadOk [''*.ads.test'']
   \<and> is_blocked (load_filters new_filter_manager
        \<lparr>fs_exists = True, fs_getmtime = Some 1, fs_read = ReadOk [''*.ads.test'']\<rparr>) ''Ads.Test ''
   \<and> is_blocked (load_filters new_filter_manager
        \<lparr>fs_exists = True, fs_getmtime = Some 1, fs_read = ReadOk [''*.ads.test'']\<rparr>) ''a.b.ads.test''"
proof -
  let ?fs = "\<lparr>fs_exists = True, fs_getmtime = Some 1, fs_read = ReadOk [''*.ads.test'']\<rparr>"
  let ?fm = "load_filters new_filter_manager ?fs"
  have r: "fs_read ?fs = ReadOk [''*.ads.test'']" by simp
  have h: "py_strip (py_lower ''Ads.Test '') = ''ads.test''"
    by (simp add: string_defs)
  have s: "blocked_suffixes ?fm = [''ads.test'']"
    using ads_rule_set[OF r, of new_filter_manager] by simp
  from is_blocked_iff[of "''Ads.Test ''" ?fm ?fs new_filter_manager]
  show ?thesis
    unfolding Let_def h s by simp
qed

text \<open>
  C3, refuted as stated: after loading the one rule \<open>::0001\<close>, the host \<open>::0001\<close> is
  blocked, although its canonical form \<open>::1\<close> is no IP rule, it is no exact-domain rule
  and there is no suffix rule.
\<close>

theorem is_blocked_beyond_spec:
  "is_blocked (load_filters new_filter_manager
      \<lparr>fs_exists = True, fs_getmtime = Some 1, fs_read = ReadOk [''::0001'']\<rparr>) ''::0001''
   \<and> \<not> spec_is_blocked (load_filters new_filter_manager
      \<lparr>fs_exists = True, fs_getmtime = Some 1, fs_read = ReadOk [''::0001'']\<rparr>) ''::0001''"
proof -
  let ?fs = "\<lparr>fs_exists = True, fs_getmtime = Some 1, fs_read = ReadOk [''::0001'']\<rparr>"
  have r: "fs_read ?fs = ReadOk [''::0001'']" by simp
  have f: "blocked_domains (load_filters new_filter_manager ?fs) = {}
      \<and> blocked_ips (load_filters new_filter_manager ?fs) = {''::0001''}
      \<and> blocked_suffixes (load_filters new_filter_manager ?fs) = []"
    using load_filters_ReadOk[OF r, of new_filter_manager]
    by (simp add: load_lines_def load_0001 clear_filters_def new_filter_manager_def)
  have h: "py_strip (py_lower ''::0001'') = ''::0001''"
    by (simp add: string_defs)
  show ?thesis
    unfolding is_blocked_def spec_is_blocked_def Let_def h
    unfolding canon_0001 using f by simp
qed

lemma ip_empty: "ip_address [] = None"
  by (simp add: string_defs ip_defs Let_def)

lemma load_line_new_ips:
  "x \<in> blocked_ips (load_line new_filter_manager l) \<Longrightarrow> valid_ip x \<and> x \<noteq> []"
  by (auto simp: load_line_def Let_def new_filter_manager_def valid_ip_def
      split: if_splits option.splits)

lemma load_line_new_domains:
  "x \<in> blocked_domains (load_line new_filter_manager l) \<Longrightarrow> x \<noteq> []"
  by (auto simp: load_line_def Let_def new_filter_manager_def py_lower_def
      split: if_splits option.splits)

lemma load_lines_new_wellformed:
  "(\<forall>x\<in>blocked_ips (load_lines new_filter_manager ls). valid_ip x)
   \<and> [] \<notin> blocked_domains (load_lines new_filter_manager ls)
   \<and> [] \<notin> blocked_ips (load_lines new_filter_manager ls)"
proof -
  have e: "blocked_ips new_filter_manager = {}" "blocked_domains new_filter_manager = {}"
    by (simp_all add: new_filter_manager_def)
  show ?thesis
    unfolding load_lines_ips load_lines_domains e
    using load_line_new_ips load_line_new_domains by blast
qed

lemma load_filters_wellformed:
  "(\<forall>x\<in>blocked_ips (load_filters fm fs). valid_ip x)
   \<and> [] \<notin> blocked_domains (load_filters fm fs)
   \<and> [] \<notin> blocked_ips (load_filters fm fs)"
proof -
  obtain ls where
    "blocked_domains (load_filters fm fs) = blocked_domains (load_lines new_filter_manager ls)"
    "blocked_ips (load_filters fm fs) = blocked_ips (load_lines new_filter_manager ls)"
    using load_filters_lines[of fm fs] by blast
  then show ?thesis
    using load_lines_new_wellformed[of ls] by simp
qed

lemma load_lines_append:
  "load_lines fm (xs @ ys) = load_lines (load_lines fm xs) ys"
  by (simp add: load_lines_def)

lemma load_lines_skip:
  assumes "comment_line l \<or> blank_line l"
  shows "load_lines fm (xs @ l # ys) = load_lines fm (xs @ ys)"
proof -
  have "load_line fm' l = fm'" for fm'
    using assms load_line_comment[of l fm'] load_line_blank[of l fm']
    by (auto simp: comment_line_def blank_line_def)
  then show ?thesis
    by (simp add: load_lines_def)
qed

text \<open>
  C4 (as the code has it). After every load of a rules file (the first one, a reload
  that took place, a forced reload that took place), every entry of the IP rules is a
  string that parses as an IP address, stored as the file writes it; neither the IP
  rules nor the exact-domain rules hold the empty string; and a comment line or a blank
  line contributes no entry, wherever it stands in the file.
\<close>

theorem loaded_rules_wellformed:
  "((fm' = load_filters fm fs \<or> reload_if_changed fm fs = (True, fm')
       \<or> force_reload fm fs = (True, fm') \<or> fm' = init_filter_manager fs)
      \<longrightarrow> (\<forall>x\<in>blocked_ips fm'. valid_ip x)
          \<and> [] \<notin> blocked_domains fm' \<and> [] \<notin> blocked_ips fm')
   \<and> (comment_line l \<or> blank_line l \<longrightarrow>
        load_filters fm (fs\<lparr>fs_read := ReadOk (xs @ l # ys)\<rparr>)
          = load_filters fm (fs\<lparr>fs_read := ReadOk (xs @ ys)\<rparr>))"
proof -
  have n: "(\<forall>x\<in>blocked_ips new_filter_manager. valid_ip x)
         \<and> [] \<notin> blocked_domains new_filter_manager \<and> [] \<notin> blocked_ips new_filter_manager"
    by (simp add: new_filter_manager_def)
  have first: "(\<forall>x\<in>blocked_ips fm'. valid_ip x)
          \<and> [] \<notin> blocked_domains fm' \<and> [] \<notin> blocked_ips fm'"
    if a: "fm' = load_filters fm fs \<or> reload_if_changed fm fs = (True, fm')
       \<or> force_reload fm fs = (True, fm') \<or> fm' = init_filter_manager fs"
  proof -
    from a have "fm' = load_filters fm fs \<or> fm' = load_filters new_filter_manager fs
         \<or> fm' = new_filter_manager"
      by (auto simp: reload_if_changed_def force_reload_def init_filter_manager_def
          split: if_splits option.splits)
    then show ?thesis
      using load_filters_wellformed[of fm fs] load_filters_wellformed[of new_filter_manager fs] n
      by blast
  qed
  have second: "load_filters fm (fs\<lparr>fs_read := ReadOk (xs @ l # ys)\<rparr>)
          = load_filters fm (fs\<lparr>fs_read := ReadOk (xs @ ys)\<rparr>)"
    if "comment_line l \<or> blank_line l"
    using that by (simp add: load_filters_def load_lines_skip Let_def)
  show ?thesis
    using first second by blast
qed

lemma ip_10: "ip_address ''10.0.0.1'' = Some (IPv4Address 167772161)"
  by (simp add: string_defs ip_defs Let_def)

lemma load_10:
  "load_line fm ''10.0.0.1'' = fm\<lparr>blocked_ips := insert ''10.0.0.1'' (blocked_ips fm)\<rparr>"
  by (simp add: load_line_def ip_10 Let_def string_defs)

theorem loaded_rules_wellformed_witness:
  "force_reload new_filter_manager
      \<lparr>fs_exists = True, fs_getmtime = Some 1, fs_read = ReadOk [''# local'', ''10.0.0.1'']\<rparr>
    = (True, \<lparr>blocked_domains = {}, blocked_ips = {''10.0.0.1''}, blocked_suffixes = [],
         last_modified = 1\<rparr>)
   \<and> valid_ip ''10.0.0.1''
   \<and> comment_line ''# local''
   \<and> load_filters new_filter_manager
        \<lparr>fs_exists = True, fs_getmtime = Some 1, fs_read = ReadOk [''# local'', ''10.0.0.1'']\<rparr>
      = load_filters new_filter_manager
        \<lparr>fs_exists = True, fs_getmtime = Some 1, fs_read = ReadOk [''10.0.0.1'']\<rparr>"
proof -
  let ?fs = "\<lparr>fs_exists = True, fs_getmtime = Some 1, fs_read = ReadOk [''# local'', ''10.0.0.1'']\<rparr>"
  let ?fm' = "\<lparr>blocked_domains = {}, blocked_ips = {''10.0.0.1''}, blocked_suffixes = [],
         last_modified = 1::real\<rparr>"
  have c: "comment_line ''# local''"
    by (simp add: comment_line_def startswith_def)
  have l: "load_line fm ''# local'' = fm" for fm
    using c by (simp add: load_line_comment comment_line_def)
  have f: "force_reload new_filter_manager ?fs = (True, ?fm')"
    by (simp add: force_reload_def load_filters_def load_lines_def l load_10 clear_filters_def
        new_filter_manager_def)
  from loaded_rules_wellformed[of ?fm' new_filter_manager ?fs "''# local''" "[]" "[''10.0.0.1'']"] f c
  show ?thesis by simp
qed

lemma canonical_ip_alt: "canonical_ip x = (map_option ip_str (ip_address x) = Some x)"
  by (simp add: canonical_ip_def split: option.splits)

lemma ip_2001: "map_option ip_str (ip_address ''2001:DB8::1'') = Some ''2001:db8::1''"
  by (simp add: string_defs ip_defs Let_def replicate_numeral)

lemma ip_star: "ip_address ''*.'' = None"
  by (simp add: string_defs ip_defs Let_def)

lemma load_2001:
  "load_line fm ''2001:DB8::1'' = fm\<lparr>blocked_ips := insert ''2001:DB8::1'' (blocked_ips fm)\<rparr>"
proof -
  obtain ip where "ip_address ''2001:DB8::1'' = Some ip"
    using ip_2001 by (cases "ip_address ''2001:DB8::1''") auto
  then show ?thesis
    by (simp add: load_line_def Let_def string_defs)
qed

lemma load_star:
  "load_line fm ''*.'' = fm\<lparr>blocked_suffixes := blocked_suffixes fm @ [[]]\<rparr>"
  by (simp add: load_line_def ip_star Let_def string_defs)

text \<open>
  C4, refuted as stated: loading the two lines \<open>2001:DB8::1\<close> and \<open>*.\<close> stores the first
  as an IP rule, though its canonical form is \<open>2001:db8::1\<close>, and stores the empty string
  as a suffix rule.
\<close>

theorem loaded_rules_not_canonical:
  "''2001:DB8::1'' \<in> blocked_ips (load_filters new_filter_manager
      \<lparr>fs_exists = True, fs_getmtime = Some 1, fs_read = ReadOk [''2001:DB8::1'', ''*.'']\<rparr>)
   \<and> \<not> canonical_ip ''2001:DB8::1''
   \<and> [] \<in> set (blocked_suffixes (load_filters new_filter_manager
      \<lparr>fs_exists = True, fs_getmtime = Some 1, fs_read = ReadOk [''2001:DB8::1'', ''*.'']\<rparr>))"
  by (simp add: load_filters_def load_lines_def load_2001 load_star clear_filters_def
      new_filter_manager_def canonical_ip_alt ip_2001)

lemma load_lines_suffix_set:
  "set (blocked_suffixes (load_lines fm ls)) =
     set (blocked_suffixes fm) \<union> (\<Union>l\<in>set ls. set (blocked_suffixes (load_line new_filter_manager l)))"
  by (simp add: load_lines_suffixes)

lemma load_line_new_skip:
  assumes "comment_line c \<or> blank_line c"
  shows "load_line new_filter_manager c = new_filter_manager"
  using assms load_line_comment[of c] load_line_blank[of c]
  by (auto simp: comment_line_def blank_line_def)

lemma rules_file_edit_same_rules:
  assumes "rules_file_edit ls ls'"
  shows "blocked_domains (load_lines fm ls') = blocked_domains (load_lines fm ls)
       \<and> blocked_ips (load_lines fm ls') = blocked_ips (load_lines fm ls)
       \<and> set (blocked_suffixes (load_lines fm ls')) = set (blocked_suffixes (load_lines fm ls))"
  using assms
proof (induction rule: rules_file_edit.induct)
  case (reorder ls' ls)
  then have "set ls' = set ls"
    by (rule mset_eq_setD)
  then show ?case
    by (simp add: load_lines_domains load_lines_ips load_lines_suffix_set)
next
  case (add_comment c xs ys)
  then have "load_line new_filter_manager c = new_filter_manager"
    by (simp add: load_line_new_skip)
  then show ?case
    by (simp add: load_lines_domains load_lines_ips load_lines_suffix_set new_filter_manager_def)
next
  case (add_blank c xs ys)
  then have "load_line new_filter_manager c = new_filter_manager"
    by (simp add: load_line_new_skip)
  then show ?case
    by (simp add: load_lines_domains load_lines_ips load_lines_suffix_set new_filter_manager_def)
next
  case (sequence ls ls' ls'')
  then show ?case by simp
qed

text \<open>
  C10. Take a rules file and a file obtained from it by reordering lines, adding
  comment lines and adding blank lines, in any number of steps. Whatever was loaded
  before, loading either file gives the same \<open>is_blocked\<close> answer for every host.
\<close>

theorem rules_file_edit_same_outcome:
  assumes "rules_file_edit ls ls'"
    and "fs_read fs = ReadOk ls" and "fs_read fs' = ReadOk ls'"
  shows "is_blocked (load_filters fm' fs') host = is_blocked (load_filters fm fs) host"
proof -
  have c: "blocked_domains (clear_filters fm') = blocked_domains (clear_filters fm)"
    "blocked_ips (clear_filters fm') = blocked_ips (clear_filters fm)"
    "blocked_suffixes (clear_filters fm') = blocked_suffixes (clear_filters fm)"
    by (simp_all add: clear_filters_def)
  have "blocked_domains (load_lines (clear_filters fm') ls') = blocked_domains (load_lines (clear_filters fm) ls)
       \<and> blocked_ips (load_lines (clear_filters fm') ls') = blocked_ips (load_lines (clear_filters fm) ls)
       \<and> set (blocked_suffixes (load_lines (clear_filters fm') ls'))
           = set (blocked_suffixes (load_lines (clear_filters fm) ls))"
    using rules_file_edit_same_rules[OF assms(1), of "clear_filters fm"]
    by (simp add: load_lines_domains load_lines_ips load_lines_suffix_set c)
  then show ?thesis
    using load_filters_ReadOk[OF assms(2), of fm] load_filters_ReadOk[OF assms(3), of fm']
    by (intro is_blocked_cong) simp_all
qed

lemma ip_x_test: "ip_address ''x.test'' = None"
  by (simp add: string_defs ip_defs Let_def)

lemma load_x_test:
  "load_line fm ''x.test'' = fm\<lparr>blocked_domains := insert ''x.test'' (blocked_domains fm)\<rparr>"
  by (simp add: load_line_def ip_x_test Let_def string_defs)

theorem rules_file_edit_same_outcome_witness:
  "rules_file_edit [''x.test'', ''*.ads.test''] [''# rules'', ''*.ads.test'', '''', ''x.test'']
   \<and> is_blocked (load_filters new_filter_manager
        \<lparr>fs_exists = True, fs_getmtime = Some 2,
         fs_read = ReadOk [''# rules'', ''*.ads.test'', '''', ''x.test'']\<rparr>) ''x.test''
   \<and> is_blocked (load_filters new_filter_manager
        \<lparr>fs_exists = True, fs_getmtime = Some 1,
         fs_read = ReadOk [''x.test'', ''*.ads.test'']\<rparr>) ''x.test''"
proof -
  let ?ls = "[''x.test'', ''*.ads.test'']"
  let ?ls' = "[''# rules'', ''*.ads.test'', '''', ''x.test'']"
  let ?fs = "\<lparr>fs_exists = True, fs_getmtime = Some 1, fs_read = ReadOk ?ls\<rparr>"
  let ?fs' = "\<lparr>fs_exists = True, fs_getmtime = Some 2, fs_read = ReadOk ?ls'\<rparr>"
  have 1: "rules_file_edit ?ls [''*.ads.test'', ''x.test'']"
    by (rule rules_file_edit.reorder) simp
  have 2: "rules_file_edit ([''*.ads.test''] @ [''x.test'']) ([''*.ads.test''] @ '''' # [''x.test''])"
    by (rule rules_file_edit.add_blank) (simp add: blank_line_def)
  have 3: "rules_file_edit ([] @ [''*.ads.test'', '''', ''x.test''])
             ([] @ ''# rules'' # [''*.ads.test'', '''', ''x.test''])"
    by (rule rules_file_edit.add_comment) (simp add: comment_line_def startswith_def)
  have e: "rules_file_edit ?ls ?ls'"
    using rules_file_edit.sequence[OF rules_file_edit.sequence[OF 1 2[simplified]] 3[simplified]] .
  have f: "blocked_domains (load_filters new_filter_manager ?fs) = {''x.test''}"
    by (simp add: load_filters_def load_lines_def load_x_test load_ads_rule
        clear_filters_def new_filter_manager_def)
  have h: "py_strip (py_lower ''x.test'') = ''x.test''"
    by (simp add: string_defs)
  have b: "is_blocked (load_filters new_filter_manager ?fs) ''x.test''"
    unfolding is_blocked_def Let_def h f by simp
  from rules_file_edit_same_outcome[OF e, where fs = ?fs and fs' = ?fs'
      and fm = new_filter_manager and fm' = new_filter_manager and host = "''x.test''"] b e
  show ?thesis by simp
qed

subsection \<open>The request parser\<close>






text \<open>The ways in which \<open>parse_request\<close> returns a record.\<close>

lemma parse_request_Some:
  assumes "parse_request request_data = Some r"
  obtains m target v where
    "match_request_line (first_line request_data) = Some (m, target, v)"
    "req_method r = py_upper m" "req_line r = first_line request_data"
    "req_version r = v" "req_host r \<noteq> []"
    "req_headers r = parse_headers (decode_utf8_ignore request_data)"
    "absolute_form target \<longrightarrow>
       absolute_target target = Some (Some (req_host r), req_port r, req_path r)"
    "\<not> absolute_form target \<longrightarrow>
       header_target (req_headers r) = (req_host r, req_port r) \<and> req_path r = target"
proof -
  from assms obtain m target v where
    mt: "match_request_line (first_line request_data) = Some (m, target, v)"
    by (auto simp: parse_request_def first_line_def Let_def split: option.splits)
  show thesis
  proof (cases "absolute_form target")
    case True
    with assms mt have
      "req_method r = py_upper m \<and> req_line r = first_line request_data
       \<and> req_version r = v \<and> req_host r \<noteq> []
       \<and> req_headers r = parse_headers (decode_utf8_ignore request_data)
       \<and> absolute_target target = Some (Some (req_host r), req_port r, req_path r)"
      by (auto simp: parse_request_def first_line_def absolute_form_def Let_def
          split: option.splits if_splits)
    with mt True show thesis by (intro that) auto
  next
    case False
    with assms mt have
      "req_method r = py_upper m \<and> req_line r = first_line request_data
       \<and> req_version r = v \<and> req_host r \<noteq> []
       \<and> req_headers r = parse_headers (decode_utf8_ignore request_data)
       \<and> header_target (req_headers r) = (req_host r, req_port r) \<and> req_path r = target"
      by (auto simp: parse_request_def first_line_def absolute_form_def Let_def
          split: option.splits if_splits prod.splits)
    with mt False show thesis by (intro that) auto
  qed
qed




lemma lower_char_not_upper: "\<not> isupper (lower_char c)"
  by (cases c) (auto simp: lower_char_def isupper_def)

lemma py_lower_no_upper: "x \<in> set (py_lower s) \<Longrightarrow> \<not> isupper x"
  by (auto simp: py_lower_def lower_char_not_upper)

lemma takeWhile_before_percent:
  "set (takeWhile (\<lambda>c. c \<noteq> CHR ''%'') (a @ CHR ''%'' # z)) \<subseteq> set a"
  by (auto simp: takeWhile_append dest: set_takeWhileD)

lemma url_hostname_lower:
  assumes "url_hostname p = Some h"
  shows "\<not> list_ex isupper (takeWhile (\<lambda>c. c \<noteq> CHR ''%'') h)"
proof (cases "py_find (fst (hostinfo p)) ''%''")
  case None
  with assms have "h = py_lower (fst (hostinfo p))"
    by (auto simp: url_hostname_def py_partition_def Let_def split: if_splits)
  then show ?thesis
    by (auto simp: list_ex_iff dest!: set_takeWhileD py_lower_no_upper)
next
  case (Some i)
  with assms obtain z where "h = py_lower (take i (fst (hostinfo p))) @ CHR ''%'' # z"
    by (auto simp: url_hostname_def py_partition_def Let_def split: if_splits)
  then show ?thesis
    using takeWhile_before_percent[of "py_lower (take i (fst (hostinfo p)))" z]
    by (auto simp: list_ex_iff dest!: py_lower_no_upper)
qed

lemma absolute_target_port:
  assumes "absolute_target target = Some (h, p, pa)"
  shows "1 \<le> p \<and> p \<le> 65535"
  using assms
  by (auto simp: absolute_target_def url_port_def Let_def split: option.splits if_splits)

lemma absolute_target_host:
  assumes "absolute_target target = Some (Some h, p, pa)"
  shows "\<not> list_ex isupper (takeWhile (\<lambda>c. c \<noteq> CHR ''%'') h)"
proof -
  from assms obtain parsed where "url_hostname parsed = Some h"
    by (auto simp: absolute_target_def Let_def split: option.splits)
  then show ?thesis by (rule url_hostname_lower)
qed

text \<open>
  C7 (as the code has it). Every request record returned by \<open>parse_request\<close> has a
  non-empty host. When the request-target is an absolute URI, the port lies in
  1..65535 and the host has no upper-case letter (before a zone identifier, which the
  library leaves as written). For the other forms the host and the port are taken from
  the \<open>Host\<close> header as they stand.
\<close>

theorem parsed_request_host_port:
  "parse_request request_data = Some r \<longrightarrow>
     req_host r \<noteq> []
   \<and> (\<forall>m target v.
         match_request_line (req_line r) = Some (m, target, v) \<and> absolute_form target \<longrightarrow>
           1 \<le> req_port r \<and> req_port r \<le> 65535
         \<and> \<not> list_ex isupper (takeWhile (\<lambda>c. c \<noteq> CHR ''%'') (req_host r)))
   \<and> (\<forall>m target v.
         match_request_line (req_line r) = Some (m, target, v) \<and> \<not> absolute_form target \<longrightarrow>
           header_target (req_headers r) = (req_host r, req_port r))"
proof
  assume a: "parse_request request_data = Some r"
  then obtain m target v where
    mt: "match_request_line (first_line request_data) = Some (m, target, v)"
    and l: "req_line r = first_line request_data"
    and h: "req_host r \<noteq> []"
    and ab: "absolute_form target \<longrightarrow>
       absolute_target target = Some (Some (req_host r), req_port r, req_path r)"
    and nab: "\<not> absolute_form target \<longrightarrow>
       header_target (req_headers r) = (req_host r, req_port r) \<and> req_path r = target"
    by (rule parse_request_Some) blast
  show "req_host r \<noteq> []
   \<and> (\<forall>m target v.
         match_request_line (req_line r) = Some (m, target, v) \<and> absolute_form target \<longrightarrow>
           1 \<le> req_port r \<and> req_port r \<le> 65535
         \<and> \<not> list_ex isupper (takeWhile (\<lambda>c. c \<noteq> CHR ''%'') (req_host r)))
   \<and> (\<forall>m target v.
         match_request_line (req_line r) = Some (m, target, v) \<and> \<not> absolute_form target \<longrightarrow>
           header_target (req_headers r) = (req_host r, req_port r))"
    using h mt l ab nab absolute_target_port absolute_target_host by auto
qed

theorem parsed_request_host_port_witness:
  "parse_request (''GET http://Example.TEST:8080/x HTTP/1.1'' @ CRLF @ CRLF) =
     Some \<lparr>req_method = ''GET'', req_host = ''example.test'', req_port = 8080, req_path = ''/x'',
           req_line = ''GET http://Example.TEST:8080/x HTTP/1.1'', req_headers = [],
           req_version = ''HTTP/1.1''\<rparr>
   \<and> match_request_line ''GET http://Example.TEST:8080/x HTTP/1.1''
       = Some (''GET'', ''http://Example.TEST:8080/x'', ''HTTP/1.1'')
   \<and> absolute_form ''http://Example.TEST:8080/x''
   \<and> ''example.test'' \<noteq> []
   \<and> \<not> list_ex isupper (takeWhile (\<lambda>c. c \<noteq> CHR ''%'') ''example.test'')"
proof -
  let ?d = "''GET http://Example.TEST:8080/x HTTP/1.1'' @ CRLF @ CRLF"
  let ?r = "\<lparr>req_method = ''GET'', req_host = ''example.test'', req_port = 8080, req_path = ''/x'',
           req_line = ''GET http://Example.TEST:8080/x HTTP/1.1'', req_headers = [],
           req_version = ''HTTP/1.1''\<rparr>"
  have p: "parse_request ?d = Some ?r"
    by (simp add: string_defs parser_defs Let_def)
  have m: "match_request_line ''GET http://Example.TEST:8080/x HTTP/1.1''
       = Some (''GET'', ''http://Example.TEST:8080/x'', ''HTTP/1.1'')"
    by (simp add: string_defs parser_defs Let_def)
  have f: "absolute_form ''http://Example.TEST:8080/x''"
    by (simp add: absolute_form_def startswith_def)
  from parsed_request_host_port[of ?d ?r] p m f
  show ?thesis by simp
qed

text \<open>
  C7, refuted as stated: an origin-form request whose \<open>Host\<close> header is
  \<open>Example.COM:99999\<close> gives a record with the host in mixed case and the port 99999.
\<close>

theorem host_header_taken_as_written:
  "parse_request (''GET / HTTP/1.1'' @ CRLF @ ''Host: Example.COM:99999'' @ CRLF @ CRLF) =
     Some \<lparr>req_method = ''GET'', req_host = ''Example.COM'', req_port = 99999, req_path = ''/'',
           req_line = ''GET / HTTP/1.1'', req_headers = [(''host'', ''Example.COM:99999'')],
           req_version = ''HTTP/1.1''\<rparr>
   \<and> list_ex isupper ''Example.COM'' \<and> (65535::int) < 99999"
  by (simp add: string_defs parser_defs Let_def)

lemma digit_not_int_space: "ascii_digit c \<Longrightarrow> \<not> int_space c"
  by (auto simp: ascii_digit_def int_space_def Let_def)

lemma digit_not_sign:
  "ascii_digit c \<Longrightarrow> c \<noteq> CHR ''+'' \<and> c \<noteq> CHR ''-'' \<and> c \<noteq> CHR ''_''"
  by (auto simp: ascii_digit_def Let_def)

lemma digits_no_double_underscore: "list_all ascii_digit ps \<Longrightarrow> \<not> double_underscore ps"
  by (induction ps rule: double_underscore.induct) (auto dest: digit_not_sign)

lemma py_int_digits:
  assumes "list_all ascii_digit ps"
  shows "py_int ps = (if ps = [] \<or> 4300 < length ps then None
                      else Some (int (number_of_digits 10 ps)))"
proof (cases ps)
  case Nil
  then show ?thesis by (simp add: py_int_def)
next
  case (Cons c cs)
  with assms have c: "ascii_digit c" by simp
  have all: "\<forall>x\<in>set ps. ascii_digit x \<or> x = CHR ''_''"
    using assms by (simp add: list_all_iff)
  have t: "dropWhile int_space ps = ps"
    using Cons c by (simp add: digit_not_int_space)
  have b: "takeWhile (\<lambda>c. ascii_digit c \<or> c = CHR ''_'') ps = ps"
    using all by (simp add: takeWhile_eq_all_conv)
  have r: "dropWhile (\<lambda>c. ascii_digit c \<or> c = CHR ''_'') ps = []"
    using all by simp
  have f: "filter ascii_digit ps = ps"
    using assms by (simp add: list_all_iff)
  have l: "last ps \<noteq> CHR ''_''"
    using assms Cons digit_not_sign[of "last ps"] last_in_set[of ps]
    by (auto simp: list_all_iff)
  have h: "hd ps \<noteq> CHR ''+'' \<and> hd ps \<noteq> CHR ''-'' \<and> hd ps \<noteq> CHR ''_''"
    using Cons c digit_not_sign by simp
  show ?thesis
    unfolding py_int_def Let_def t
    using h Cons b r f l digits_no_double_underscore[OF assms]
    by simp
qed

text \<open>
  C8 (as the code has it). When the request-target is an absolute URI that writes a port
  of decimal digits greater than 65535, \<open>parse_request\<close> fails: it returns no request
  record.
\<close>

theorem port_above_range_rejected:
  assumes "match_request_line (first_line request_data) = Some (m, target, v)"
    and "absolute_form target"
    and "written_port target = Some ps"
    and "list_all ascii_digit ps"
    and "65535 < number_of_digits 10 ps"
  shows "parse_request request_data = None"
proof -
  from assms(3) obtain parsed where
    u: "urlparse target = Some parsed" and p: "snd (hostinfo parsed) = Some ps"
    by (auto simp: written_port_def split: option.splits)
  have "url_port parsed = None"
    using p assms(4,5) by (simp add: url_port_def py_int_digits)
  then have "absolute_target target = None"
    using u by (simp add: absolute_target_def)
  then show ?thesis
    using assms(1,2)
    by (simp add: parse_request_def first_line_def absolute_form_def Let_def)
qed

theorem port_above_range_rejected_witness:
  "match_request_line (first_line (''GET http://example.test:65536/ HTTP/1.1'' @ CRLF @ CRLF))
     = Some (''GET'', ''http://example.test:65536/'', ''HTTP/1.1'')
   \<and> absolute_form ''http://example.test:65536/''
   \<and> written_port ''http://example.test:65536/'' = Some ''65536''
   \<and> list_all ascii_digit ''65536''
   \<and> 65535 < number_of_digits 10 ''65536''
   \<and> parse_request (''GET http://example.test:65536/ HTTP/1.1'' @ CRLF @ CRLF) = None"
proof -
  let ?d = "''GET http://example.test:65536/ HTTP/1.1'' @ CRLF @ CRLF"
  have 1: "match_request_line (first_line ?d)
     = Some (''GET'', ''http://example.test:65536/'', ''HTTP/1.1'')"
    by (simp add: first_line_def string_defs parser_defs Let_def)
  have 2: "absolute_form ''http://example.test:65536/''"
    by (simp add: absolute_form_def startswith_def)
  have 3: "written_port ''http://example.test:65536/'' = Some ''65536''"
    by (simp add: written_port_def string_defs parser_defs Let_def)
  have 4: "list_all ascii_digit ''65536''"
    by (simp add: ascii_digit_def)
  have 5: "65535 < number_of_digits 10 ''65536''"
    by (simp add: number_of_digits_def digit_value_def)
  from port_above_range_rejected[OF 1 2 3 4 5] 1 2 3 4 5
  show ?thesis by simp
qed

text \<open>
  C8, refuted as stated: an absolute URI that writes the port 0 is parsed, and the
  record holds the default port 80.
\<close>

theorem port_zero_accepted:
  "written_port ''http://example.test:0/'' = Some ''0''
   \<and> parse_request (''GET http://example.test:0/ HTTP/1.1'' @ CRLF
        @ ''Host: example.test'' @ CRLF @ CRLF) =
       Some \<lparr>req_method = ''GET'', req_host = ''example.test'', req_port = 80, req_path = ''/'',
             req_line = ''GET http://example.test:0/ HTTP/1.1'',
             req_headers = [(''host'', ''example.test'')], req_version = ''HTTP/1.1''\<rparr>"
  by (simp add: written_port_def string_defs parser_defs Let_def)

lemma py_rfind_absent: "c \<notin> set s \<Longrightarrow> py_rfind s [c] = None"
  by (induction s) (auto simp: startswith_def)

lemma py_rfind_last: "c \<notin> set ps \<Longrightarrow> py_rfind (x @ c # ps) [c] = Some (length x)"
  by (induction x) (auto simp: startswith_def py_rfind_absent)

lemma py_rsplit1_last:
  "c \<notin> set ps \<Longrightarrow> py_rsplit1 (x @ c # ps) [c] = [x, ps]"
  by (simp add: py_rsplit1_def py_rfind_last)

text \<open>
  C9 (as the code has it). For an origin-form request whose \<open>Host\<close> header carries a
  bracketed IPv6 literal with a port, such as \<open>[::1]:8080\<close>, the header is cut at its
  last colon: the record's host is the text before it, brackets included (\<open>[::1]\<close>), and
  the port is the integer the text after it denotes (8080).
\<close>

theorem bracketed_host_header:
  assumes "match_request_line (first_line request_data) = Some (m, target, v)"
    and "\<not> absolute_form target"
    and "headers_get (parse_headers (decode_utf8_ignore request_data)) ''host'' []
           = ''['' @ a @ '']:'' @ ps"
    and "CHR '':'' \<notin> set ps"
    and "py_int ps = Some n"
  shows "\<exists>r. parse_request request_data = Some r
           \<and> req_host r = ''['' @ a @ '']'' \<and> req_port r = n"
proof -
  have "''['' @ a @ '']:'' @ ps = (''['' @ a @ '']'') @ CHR '':'' # ps" by simp
  then have s: "py_rsplit1 (''['' @ a @ '']:'' @ ps) '':'' = [''['' @ a @ '']'', ps]"
    using py_rsplit1_last[OF assms(4), of "''['' @ a @ '']''"] by simp
  have "header_target (parse_headers (decode_utf8_ignore request_data))
          = (''['' @ a @ '']'', n)"
    unfolding header_target_def Let_def assms(3) s using assms(5) by simp
  then show ?thesis
    using assms(1,2)
    by (simp add: parse_request_def first_line_def absolute_form_def Let_def)
qed

theorem bracketed_host_header_witness:
  "match_request_line (first_line (''GET / HTTP/1.1'' @ CRLF @ ''Host: [2001:db8::1]:443'' @ CRLF @ CRLF))
     = Some (''GET'', ''/'', ''HTTP/1.1'')
   \<and> \<not> absolute_form ''/''
   \<and> CHR '':'' \<notin> set ''443''
   \<and> py_int ''443'' = Some 443
   \<and> (\<exists>r. parse_request (''GET / HTTP/1.1'' @ CRLF @ ''Host: [2001:db8::1]:443'' @ CRLF @ CRLF)
             = Some r
          \<and> req_host r = ''[2001:db8::1]'' \<and> req_port r = 443)"
proof -
  let ?d = "''GET / HTTP/1.1'' @ CRLF @ ''Host: [2001:db8::1]:443'' @ CRLF @ CRLF"
  have 1: "match_request_line (first_line ?d) = Some (''GET'', ''/'', ''HTTP/1.1'')"
    by (simp add: first_line_def string_defs parser_defs Let_def)
  have 2: "\<not> absolute_form ''/''"
    by (simp add: absolute_form_def startswith_def)
  have 3: "headers_get (parse_headers (decode_utf8_ignore ?d)) ''host'' []
           = ''['' @ ''2001:db8::1'' @ '']:'' @ ''443''"
    by (simp add: string_defs parser_defs Let_def)
  have 4: "CHR '':'' \<notin> set ''443''" by simp
  have 5: "py_int ''443'' = Some 443"
    by (simp add: string_defs parser_defs Let_def)
  from bracketed_host_header[OF 1 2 3 4 5] 1 2 4 5
  show ?thesis by simp
qed

text \<open>
  C9, refuted as stated: for the \<open>Host\<close> header \<open>[::1]:8080\<close> the record's host is
  \<open>[::1]\<close>, with the brackets, not \<open>::1\<close>; the port is 8080.
\<close>

theorem bracketed_host_keeps_brackets:
  "parse_request (''GET / HTTP/1.1'' @ CRLF @ ''Host: [::1]:8080'' @ CRLF @ CRLF) =
     Some \<lparr>req_method = ''GET'', req_host = ''[::1]'', req_port = 8080, req_path = ''/'',
           req_line = ''GET / HTTP/1.1'', req_headers = [(''host'', ''[::1]:8080'')],
           req_version = ''HTTP/1.1''\<rparr>
   \<and> ''[::1]'' \<noteq> ''::1''"
  by (simp add: string_defs parser_defs Let_def)

subsection \<open>The request reader\<close>

lemma py_find_absent: "c \<notin> set s \<Longrightarrow> py_find s (c # rest) = None"
  by (induction s) (auto simp: startswith_def)

lemma no_terminator: "CR \<notin> set s \<Longrightarrow> py_find s (CRLF @ CRLF) = None"
  by (simp add: CRLF_def py_find_absent)

lemma receive_loop_continue:
  assumes "length data < max_size"
    and "recv 4096 sock = (Received chunk, sock')"
    and "chunk \<noteq> []"
    and "py_find (data @ chunk) (CRLF @ CRLF) = None"
  shows "receive_loop max_size data sock = receive_loop max_size (data @ chunk) sock'"
  by (subst receive_loop.simps) (simp add: assms Let_def)

lemma receive_loop_full:
  assumes "\<not> length data < max_size" and "data \<noteq> []"
  shows "receive_loop max_size data sock = (Request data, sock)"
  by (subst receive_loop.simps) (simp add: assms finish_def)

lemma startswith_length: "startswith s p \<Longrightarrow> length p \<le> length s"
proof -
  assume "startswith s p"
  then have "length (take (length p) s) = length p"
    by (simp add: startswith_def)
  then show ?thesis by simp
qed

lemma startswith_append:
  "length p \<le> length s \<Longrightarrow> startswith (s @ t) p = startswith s p"
  by (simp add: startswith_def)

lemma py_find_bound: "py_find s sub = Some i \<Longrightarrow> i + length sub \<le> length s"
proof (induction s arbitrary: i)
  case Nil
  then show ?case by (simp split: if_splits)
next
  case (Cons c cs)
  show ?case
  proof (cases "startswith (c # cs) sub")
    case True
    then have "length sub \<le> length (c # cs)"
      by (rule startswith_length)
    with True Cons.prems show ?thesis by simp
  next
    case False
    with Cons.prems obtain j where "py_find cs sub = Some j" "i = Suc j"
      by auto
    with Cons.IH[of j] show ?thesis by simp
  qed
qed

lemma py_find_append: "py_find s sub = Some i \<Longrightarrow> py_find (s @ t) sub = Some i"
proof (induction s arbitrary: i)
  case Nil
  then show ?case by (cases t) (simp_all add: startswith_def split: if_splits)
next
  case (Cons c cs)
  show ?case
  proof (cases "startswith (c # cs) sub")
    case True
    then have "length sub \<le> length (c # cs)"
      by (rule startswith_length)
    then have "startswith ((c # cs) @ t) sub"
      using True startswith_append[of sub "c # cs" t] by simp
    with True Cons.prems show ?thesis by simp
  next
    case False
    with Cons.prems obtain j where j: "py_find cs sub = Some j" "i = Suc j"
      by auto
    then have "length sub \<le> length (c # cs)"
      using py_find_bound[of cs sub j] by simp
    then have "\<not> startswith ((c # cs) @ t) sub"
      using False startswith_append[of sub "c # cs" t] by simp
    with j Cons.IH[of j] show ?thesis by simp
  qed
qed

lemma declares_body_append: "declares_body data \<Longrightarrow> declares_body (data @ extra)"
proof -
  assume a: "declares_body data"
  then obtain i where i: "py_find data (CRLF @ CRLF) = Some i"
    by (auto simp: declares_body_def split: option.splits)
  then have "i \<le> length data"
    using py_find_bound[of data "CRLF @ CRLF" i] by simp
  then have t: "take i (data @ extra) = take i data" by simp
  have "0 < find_content_length (py_split (decode_utf8_ignore (take i data)) CRLF)"
    using a i by (simp add: declares_body_def)
  then show ?thesis
    unfolding declares_body_def py_find_append[OF i] option.case t .
qed

lemma read_body_extends:
  "read_body data body_received content_length sock = (Request d, sock')
     \<Longrightarrow> \<exists>extra. d = data @ extra"
proof (induction data body_received content_length sock rule: read_body.induct)
  case (1 data body_received content_length sock)
  show ?case
  proof (cases "body_received < content_length")
    case False
    with "1.prems" show ?thesis
      by (subst (asm) read_body.simps) (auto simp: finish_def split: if_splits)
  next
    case True
    obtain res s1 where r: "recv (nat (min 4096 (content_length - body_received))) sock = (res, s1)"
      by (cases "recv (nat (min 4096 (content_length - body_received))) sock")
    show ?thesis
    proof (cases res)
      case (Received chunk)
      show ?thesis
      proof (cases "chunk = []")
        case True
        with "1.prems" \<open>body_received < content_length\<close> r Received show ?thesis
          by (subst (asm) read_body.simps) (auto simp: finish_def split: if_splits)
      next
        case False
        with "1.prems" \<open>body_received < content_length\<close> r Received have
          "read_body (data @ chunk) (body_received + int (length chunk)) content_length s1
             = (Request d, sock')"
          by (subst (asm) read_body.simps) simp
        then obtain extra where "d = (data @ chunk) @ extra"
          using "1.IH"[OF \<open>body_received < content_length\<close> r[symmetric] _ False]
            Received by auto
        then show ?thesis by auto
      qed
    next
      case RecvTimeout
      with "1.prems" True r show ?thesis
        by (subst (asm) read_body.simps) (auto simp: finish_def split: if_splits)
    next
      case RecvError
      with "1.prems" True r show ?thesis
        by (subst (asm) read_body.simps) simp
    qed
  qed
qed

lemma recv_length: "recv n sock = (Received chunk, sock') \<Longrightarrow> length chunk \<le> n"
proof (cases sock)
  case Nil
  assume "recv n sock = (Received chunk, sock')"
  with Nil show ?thesis by simp
next
  case (Cons ev evs)
  assume "recv n sock = (Received chunk, sock')"
  with Cons show ?thesis by (cases ev) (auto split: if_splits)
qed

text \<open>
  What the header loop does bound: a request that declares no body comes back with
  fewer than \<open>max_size + 4096\<close> bytes, the last read being appended whole.
\<close>

lemma receive_loop_bound:
  "receive_loop max_size data sock = (Request d, sock') \<Longrightarrow> \<not> declares_body d
     \<Longrightarrow> length data < max_size + 4096 \<Longrightarrow> length d < max_size + 4096"
proof (induction max_size data sock rule: receive_loop.induct)
  case (1 max_size data sock)
  show ?case
  proof (cases "length data < max_size")
    case False
    with "1.prems" show ?thesis
      by (subst (asm) receive_loop.simps) (auto simp: finish_def split: if_splits)
  next
    case True
    obtain res s1 where r: "recv 4096 sock = (res, s1)"
      by (cases "recv 4096 sock")
    show ?thesis
    proof (cases res)
      case (Received chunk)
      show ?thesis
      proof (cases "chunk = []")
        case True
        with "1.prems" \<open>length data < max_size\<close> r Received show ?thesis
          by (subst (asm) receive_loop.simps) (auto simp: finish_def split: if_splits)
      next
        case False
        have len: "length (data @ chunk) < max_size + 4096"
          using recv_length[of 4096 sock chunk s1] r Received \<open>length data < max_size\<close>
          by simp
        show ?thesis
        proof (cases "py_find (data @ chunk) (CRLF @ CRLF)")
          case None
          with "1.prems" \<open>length data < max_size\<close> r Received False have
            "receive_loop max_size (data @ chunk) s1 = (Request d, sock')"
            by (subst (asm) receive_loop.simps) (simp add: Let_def)
          then show ?thesis
            using "1.IH"[OF \<open>length data < max_size\<close> r[symmetric] _ False refl None]
              Received "1.prems"(2) len by auto
        next
          case (Some header_end)
          let ?cl = "find_content_length
                (py_split (decode_utf8_ignore (take header_end (data @ chunk))) CRLF)"
          show ?thesis
          proof (cases "?cl > 0")
            case True
            then have db: "declares_body (data @ chunk)"
              using Some by (simp add: declares_body_def)
            from "1.prems" \<open>length data < max_size\<close> r Received False Some True have
              "read_body (data @ chunk) (int (length (data @ chunk)) - int (header_end + 4))
                 ?cl s1 = (Request d, sock')"
              by (subst (asm) receive_loop.simps) (simp add: Let_def)
            then obtain extra where "d = (data @ chunk) @ extra"
              using read_body_extends by blast
            then have "declares_body d"
              using declares_body_append[OF db, of extra] by simp
            with "1.prems"(2) show ?thesis by simp
          next
            case no_body: False
            with "1.prems" \<open>length data < max_size\<close> r Received False Some have
              "d = data @ chunk"
              by (subst (asm) receive_loop.simps)
                (auto simp: Let_def finish_def split: if_splits)
            with len show ?thesis by simp
          qed
        qed
      qed
    next
      case RecvTimeout
      with "1.prems" True r show ?thesis
        by (subst (asm) receive_loop.simps) (auto simp: finish_def split: if_splits)
    next
      case RecvError
      with "1.prems" True r show ?thesis
        by (subst (asm) receive_loop.simps) simp
    qed
  qed
qed

lemma receive_request_bound:
  assumes "fst (receive_request sock MAX_REQUEST) = Request d" and "\<not> declares_body d"
  shows "length d \<le> 12287"
proof -
  obtain sock' where "receive_loop 8192 [] sock = (Request d, sock')"
    using assms(1) unfolding receive_request_def MAX_REQUEST_def
    by (cases "receive_loop 8192 [] sock") auto
  then have "length d < 8192 + 4096"
    using assms(2) by (rule receive_loop_bound) simp
  then show ?thesis by simp
qed

text \<open>
  C5, the code at the failing input. The client sends 4096 bytes, then 4095, then 4096,
  none of them a carriage return, so that there is neither a header terminator nor a
  \<open>Content-Length\<close>. With 8191 bytes read the loop condition still holds, the next
  \<open>recv(4096)\<close> is appended whole, and the reader returns 12287 bytes, more than
  \<open>MAX_REQUEST\<close>.
\<close>

theorem receive_request_exceeds_max:
  "fst (receive_request
          [Data (replicate 4096 (CHR ''a'')), Data (replicate 4095 (CHR ''a'')),
           Data (replicate 4096 (CHR ''a''))] MAX_REQUEST)
     = Request (replicate 12287 (CHR ''a''))
   \<and> MAX_REQUEST < length (replicate 12287 (CHR ''a''))"
proof -
  let ?a = "CHR ''a''"
  have nt: "py_find (replicate n ?a) (CRLF @ CRLF) = None" for n
    by (rule no_terminator) (simp add: CR_def)
  have r1: "[] @ replicate 4096 ?a = replicate 4096 ?a" by simp
  have r2: "replicate 4096 ?a @ replicate 4095 ?a = replicate 8191 ?a"
    by (simp add: replicate_add[symmetric])
  have r3: "replicate 8191 ?a @ replicate 4096 ?a = replicate 12287 ?a"
    by (simp add: replicate_add[symmetric])
  have 1: "receive_loop 8192 []
             [Data (replicate 4096 ?a), Data (replicate 4095 ?a), Data (replicate 4096 ?a)]
           = receive_loop 8192 (replicate 4096 ?a)
               [Data (replicate 4095 ?a), Data (replicate 4096 ?a)]"
    using receive_loop_continue[of "[]" 8192
        "[Data (replicate 4096 ?a), Data (replicate 4095 ?a), Data (replicate 4096 ?a)]"
        "replicate 4096 ?a" "[Data (replicate 4095 ?a), Data (replicate 4096 ?a)]"]
    unfolding r1 by (simp add: nt)
  have 2: "receive_loop 8192 (replicate 4096 ?a)
             [Data (replicate 4095 ?a), Data (replicate 4096 ?a)]
           = receive_loop 8192 (replicate 8191 ?a) [Data (replicate 4096 ?a)]"
    using receive_loop_continue[of "replicate 4096 ?a" 8192
        "[Data (replicate 4095 ?a), Data (replicate 4096 ?a)]"
        "replicate 4095 ?a" "[Data (replicate 4096 ?a)]"]
    unfolding r2 by (simp add: nt)
  have 3: "receive_loop 8192 (replicate 8191 ?a) [Data (replicate 4096 ?a)]
           = receive_loop 8192 (replicate 12287 ?a) []"
    using receive_loop_continue[of "replicate 8191 ?a" 8192
        "[Data (replicate 4096 ?a)]" "replicate 4096 ?a" "[]"]
    unfolding r3 by (simp add: nt)
  have 4: "receive_loop 8192 (replicate 12287 ?a) [] = (Request (replicate 12287 ?a), [])"
    by (rule receive_loop_full) simp_all
  show ?thesis
    unfolding receive_request_def MAX_REQUEST_def 1 2 3 4 by simp
qed

subsection \<open>The connection handler\<close>

lemma refusal_trace:
  assumes "acts = [Log (BLOCKED cip cport h p l), ClientSend x,
            (if s = Done then ClientClose else Log (ERROR HandlerFailed)),
            ClientClose, ReleasePermit]"
  shows "blocked_events acts = 1 \<and> origin_connects acts = 0 \<and> client_sends acts = [x]
       \<and> ClientClose \<in> set (after_client_send acts)"
  using assms by (cases s) simp_all

text \<open>
  C2. When the request that was read parses and the filter, after its reload check,
  reports the host blocked, the handler logs one BLOCKED event, calls \<open>sendall\<close> on the
  client socket once, with exactly the bytes of the 403 response, closes the client
  socket, and releases its permit; it makes no call on an origin socket. If the write
  to the client raises, the error is logged and the socket is closed all the same.
\<close>

theorem blocked_request_refused:
  assumes "fst (receive_request (client_recv w) MAX_REQUEST) = Request request_data"
    and "parse_request request_data = Some req"
    and "is_blocked (snd (reload_if_changed fm (rules_file w))) (req_host req)"
  shows "snd (handle_client fm w) =
           [Log (BLOCKED (client_ip w) (client_port w) (req_host req) (req_port req)
                   (req_line req)),
            ClientSend (''HTTP/1.1 403 Forbidden'' @ [CR, LF]
              @ ''Content-Type: text/plain'' @ [CR, LF]
              @ ''Content-Length: 13'' @ [CR, LF]
              @ ''Connection: close'' @ [CR, LF] @ [CR, LF] @ ''Access Denied''),
            (if client_send w = Done then ClientClose else Log (ERROR HandlerFailed)),
            ClientClose, ReleasePermit]
       \<and> blocked_events (snd (handle_client fm w)) = 1
       \<and> origin_connects (snd (handle_client fm w)) = 0
       \<and> client_sends (snd (handle_client fm w)) =
           [''HTTP/1.1 403 Forbidden'' @ [CR, LF] @ ''Content-Type: text/plain'' @ [CR, LF]
            @ ''Content-Length: 13'' @ [CR, LF] @ ''Connection: close'' @ [CR, LF] @ [CR, LF]
            @ ''Access Denied'']
       \<and> ClientClose \<in> set (after_client_send (snd (handle_client fm w)))"
proof -
  have t: "snd (handle_client fm w) =
           [Log (BLOCKED (client_ip w) (client_port w) (req_host req) (req_port req)
                   (req_line req)),
            ClientSend forbidden_response,
            (if client_send w = Done then ClientClose else Log (ERROR HandlerFailed)),
            ClientClose, ReleasePermit]"
    using assms
    by (cases "client_send w") (simp_all add: handle_client_def Let_def raised_def)
  have f: "forbidden_response = ''HTTP/1.1 403 Forbidden'' @ [CR, LF]
              @ ''Content-Type: text/plain'' @ [CR, LF]
              @ ''Content-Length: 13'' @ [CR, LF]
              @ ''Connection: close'' @ [CR, LF] @ [CR, LF] @ ''Access Denied''"
    by (simp add: forbidden_response_def CRLF_def)
  have q: "blocked_events (snd (handle_client fm w)) = 1
       \<and> origin_connects (snd (handle_client fm w)) = 0
       \<and> client_sends (snd (handle_client fm w)) = [forbidden_response]
       \<and> ClientClose \<in> set (after_client_send (snd (handle_client fm w)))"
    using refusal_trace[OF t] .
  show ?thesis
    unfolding f[symmetric] using t q by blast
qed

theorem blocked_request_refused_witness:
  "fst (receive_request
          [Data (''GET / HTTP/1.1'' @ CRLF @ ''Host: blocked.test'' @ CRLF @ CRLF)] MAX_REQUEST)
     = Request (''GET / HTTP/1.1'' @ CRLF @ ''Host: blocked.test'' @ CRLF @ CRLF)
   \<and> parse_request (''GET / HTTP/1.1'' @ CRLF @ ''Host: blocked.test'' @ CRLF @ CRLF)
     = Some \<lparr>req_method = ''GET'', req_host = ''blocked.test'', req_port = 80, req_path = ''/'',
             req_line = ''GET / HTTP/1.1'', req_headers = [(''host'', ''blocked.test'')],
             req_version = ''HTTP/1.1''\<rparr>
   \<and> is_blocked \<lparr>blocked_domains = {''blocked.test''}, blocked_ips = {},
         blocked_suffixes = [], last_modified = 0\<rparr> ''blocked.test''
   \<and> snd (handle_client
         \<lparr>blocked_domains = {''blocked.test''}, blocked_ips = {}, blocked_suffixes = [],
          last_modified = 0\<rparr>
         \<lparr>client_ip = ''10.1.1.1'', client_port = 5000,
          client_recv = [Data (''GET / HTTP/1.1'' @ CRLF @ ''Host: blocked.test'' @ CRLF @ CRLF)],
          client_send = Done, origin_connect = Done, origin_send = Done, origin_recv = [],
          rules_file = \<lparr>fs_exists = False, fs_getmtime = None, fs_read = OpenError\<rparr>\<rparr>)
     = [Log (BLOCKED ''10.1.1.1'' 5000 ''blocked.test'' 80 ''GET / HTTP/1.1''),
        ClientSend (''HTTP/1.1 403 Forbidden'' @ [CR, LF]
              @ ''Content-Type: text/plain'' @ [CR, LF]
              @ ''Content-Length: 13'' @ [CR, LF]
              @ ''Connection: close'' @ [CR, LF] @ [CR, LF] @ ''Access Denied''),
        ClientClose, ClientClose, ReleasePermit]"
proof -
  let ?d = "''GET / HTTP/1.1'' @ CRLF @ ''Host: blocked.test'' @ CRLF @ CRLF"
  let ?fm = "\<lparr>blocked_domains = {''blocked.test''}, blocked_ips = {}, blocked_suffixes = [],
          last_modified = 0::real\<rparr>"
  let ?w = "\<lparr>client_ip = ''10.1.1.1'', client_port = 5000,
          client_recv = [Data ?d],
          client_send = Done, origin_connect = Done, origin_send = Done, origin_recv = [],
          rules_file = \<lparr>fs_exists = False, fs_getmtime = None, fs_read = OpenError\<rparr>\<rparr>"
  let ?req = "\<lparr>req_method = ''GET'', req_host = ''blocked.test'', req_port = 80, req_path = ''/'',
             req_line = ''GET / HTTP/1.1'', req_headers = [(''host'', ''blocked.test'')],
             req_version = ''HTTP/1.1''\<rparr>"
  have 1: "fst (receive_request (client_recv ?w) MAX_REQUEST) = Request ?d"
    unfolding receive_request_def MAX_REQUEST_def
    by (subst receive_loop.simps)
      (simp add: string_defs finish_def Let_def decode_utf8_ignore_def)
  have 2: "parse_request ?d = Some ?req"
    by (simp add: string_defs parser_defs Let_def)
  have h: "py_strip (py_lower ''blocked.test'') = ''blocked.test''"
    by (simp add: string_defs)
  have b: "is_blocked ?fm ''blocked.test''"
    unfolding is_blocked_def Let_def h by simp
  have 3: "is_blocked (snd (reload_if_changed ?fm (rules_file ?w))) (req_host ?req)"
    using b by (simp add: reload_if_changed_def)
  from blocked_request_refused[OF 1 2 3] 1 2 b
  show ?thesis by simp
qed

end
